theory Spec2Isabelle
  imports Main "HOL-Library.Word"
begin

section \<open>Data model of the sACN transmitter (transmitter.go)\<close>

type_synonym byte = "8 word"
type_synonym uint16 = "16 word"

text \<open>Go errors are values. \<open>Activate\<close> builds its own error for a universe that is
  already activated; every other error comes from the net package.\<close>

datatype error = AlreadyActivated uint16 | NetError string

text \<open>The value of a resolved UDP address: the IP bytes, the port and the zone.\<close>

record endpoint =
  epIP :: "byte list"
  epPort :: int
  epZone :: string

text \<open>\<open>net.UDPAddr\<close> as Go lays it out: the field \<open>IP\<close> is a byte slice, that is a
  reference to a backing array (\<open>None\<close> is the nil slice); \<open>Port\<close> and \<open>Zone\<close> are
  plain values. Copying the struct copies the reference, not the bytes.\<close>

record UDPAddr =
  IP :: "nat option"
  Port :: int
  Zone :: string

text \<open>The store: every array a slice can point to. An address is the position of the
  object in the list; the garbage-collected heap never frees what is still reachable,
  so allocation only appends.\<close>

datatype obj = ByteArr "byte list" | AddrArr "UDPAddr list"

type_synonym store = "obj list"

definition alloc :: "store \<Rightarrow> obj \<Rightarrow> nat \<times> store" where
  "alloc h x = (length h, h @ [x])"

definition lookup :: "store \<Rightarrow> nat \<Rightarrow> obj option" where
  "lookup h r = (if r < length h then Some (h ! r) else None)"

definition bytesAt :: "store \<Rightarrow> nat \<Rightarrow> byte list" where
  "bytesAt h r = (case lookup h r of Some (ByteArr bs) \<Rightarrow> bs | _ \<Rightarrow> [])"

definition addrsAt :: "store \<Rightarrow> nat \<Rightarrow> UDPAddr list" where
  "addrsAt h r = (case lookup h r of Some (AddrArr xs) \<Rightarrow> xs | _ \<Rightarrow> [])"

text \<open>What a \<open>net.UDPAddr\<close> denotes in a given store.\<close>

definition loadAddr :: "store \<Rightarrow> UDPAddr \<Rightarrow> endpoint" where
  "loadAddr h a =
     \<lparr>epIP = (case IP a of None \<Rightarrow> [] | Some r \<Rightarrow> bytesAt h r),
      epPort = Port a, epZone = Zone a\<rparr>"

subsection \<open>The data packet\<close>

text \<open>Modelled from the spec: the type \<open>DataPacket\<close> and its methods are declared in a
  file of the repository that is not among the sources. The spec (sections 3, 4.4 and 6)
  gives the frame state: identity, source name, universe, payload, priority, an unsigned
  8-bit sequence counter and the termination flag.\<close>

record DataPacket =
  pktCID :: "byte list"
  pktSourceName :: string
  pktUniverse :: uint16
  pktData :: "byte list"
  pktPriority :: byte
  pktSequence :: byte
  pktStreamTerminated :: bool

text \<open>Modelled from the spec: a fresh frame state has sequence 0, the termination flag
  unset and priority 0 (unset).\<close>

definition NewDataPacket :: DataPacket where
  "NewDataPacket =
     \<lparr>pktCID = replicate 16 0, pktSourceName = [], pktUniverse = 0, pktData = [],
      pktPriority = 0, pktSequence = 0, pktStreamTerminated = False\<rparr>"

text \<open>Modelled from the spec: the setter of the identity replaces it.\<close>

definition SetCID :: "DataPacket \<Rightarrow> byte list \<Rightarrow> DataPacket" where
  "SetCID p c = p\<lparr>pktCID := c\<rparr>"

text \<open>Modelled from the spec: the setter of the source name replaces it.\<close>

definition SetSourceName :: "DataPacket \<Rightarrow> string \<Rightarrow> DataPacket" where
  "SetSourceName p s = p\<lparr>pktSourceName := s\<rparr>"

text \<open>Modelled from the spec: the setter of the universe number replaces it.\<close>

definition SetUniverse :: "DataPacket \<Rightarrow> uint16 \<Rightarrow> DataPacket" where
  "SetUniverse p u = p\<lparr>pktUniverse := u\<rparr>"

text \<open>Modelled from the spec: \<open>SetPayload\<close> replaces the current payload and touches
  neither the sequence counter nor the termination flag.\<close>

definition SetData :: "DataPacket \<Rightarrow> byte list \<Rightarrow> DataPacket" where
  "SetData p d = p\<lparr>pktData := d\<rparr>"

text \<open>Modelled from the spec: the setter of the priority of the frame (the method
  \<open>SetPriority\<close> of the packet) replaces the priority.\<close>

definition SetPriority_pkt :: "DataPacket \<Rightarrow> byte \<Rightarrow> DataPacket" where
  "SetPriority_pkt p x = p\<lparr>pktPriority := x\<rparr>"

text \<open>Modelled from the spec: \<open>IncrementSequence\<close> is a wrapping unsigned 8-bit
  increment (\<open>+\<close> on \<open>8 word\<close> wraps 255 to 0).\<close>

definition SequenceIncr :: "DataPacket \<Rightarrow> DataPacket" where
  "SequenceIncr p = p\<lparr>pktSequence := pktSequence p + 1\<rparr>"

text \<open>Modelled from the spec: the setter of the termination flag.\<close>

definition SetStreamTerminated :: "DataPacket \<Rightarrow> bool \<Rightarrow> DataPacket" where
  "SetStreamTerminated p b = p\<lparr>pktStreamTerminated := b\<rparr>"

subsection \<open>The transmitter\<close>

text \<open>The struct \<open>Transmitter\<close>, field by field. A channel is known by its number. The
  master packet of a universe is reached only through the map, so the map holds the
  packet itself. A destination slice is a reference to its backing array in the store.
  \<open>time.Duration\<close> counts nanoseconds.\<close>

record Transmitter =
  universes :: "uint16 \<rightharpoonup> nat"
  master :: "uint16 \<rightharpoonup> DataPacket"
  destinations :: "uint16 \<rightharpoonup> nat"
  multicast :: "uint16 \<rightharpoonup> bool"
  bind :: string
  cid :: "byte list"
  sourceName :: string
  keepAliveInterval :: int
  priority :: byte

text \<open>What the program does not decide: name resolution, whether a socket can be
  opened (asked for the n-th socket of the run), whether the n-th write of the run
  fails, and two functions of the repository that are not among the sources, the
  multicast address of a universe (\<open>calcMulticastAddr\<close>) and the serialisation of a
  packet (\<open>getBytes\<close>).\<close>

record env =
  resolveUDPAddr :: "string \<Rightarrow> error + endpoint"
  listenUDP :: "endpoint \<Rightarrow> nat \<Rightarrow> error option"
  writeFails :: "nat \<Rightarrow> bool"
  calcMulticastAddr :: "uint16 \<Rightarrow> string"
  getBytes :: "DataPacket \<Rightarrow> byte list"

text \<open>What the program does to the outside: a call of \<open>WriteToUDP\<close> (socket, bytes,
  address, and whether the write succeeded) and a call of \<open>time.Sleep\<close>.\<close>

datatype event = WriteToUDP nat "byte list" "endpoint option" bool | Sleep int

text \<open>The whole state: the transmitter, the store, the sockets opened so far (\<open>True\<close>
  while open), the number of channels made so far, and the events so far.\<close>

record world =
  tx :: Transmitter
  heap :: store
  socks :: "bool list"
  nchan :: nat
  trace :: "event list"

text \<open>The variables a goroutine of \<open>Activate\<close> closes over.\<close>

record session =
  sUniverse :: uint16
  sServ :: nat
  sCh :: nat

text \<open>Reading a Go map of booleans gives \<open>false\<close> for a key that is not there.\<close>

definition lookupBool :: "(uint16 \<rightharpoonup> bool) \<Rightarrow> uint16 \<Rightarrow> bool" where
  "lookupBool m u = (case m u of None \<Rightarrow> False | Some b \<Rightarrow> b)"

text \<open>\<open>t.destinations[universe]\<close>: the elements of the slice, the nil slice for a key
  that is not there.\<close>

definition destSlice :: "world \<Rightarrow> uint16 \<Rightarrow> UDPAddr list" where
  "destSlice w u = (case destinations (tx w) u of None \<Rightarrow> [] | Some r \<Rightarrow> addrsAt (heap w) r)"

definition sockOpen :: "world \<Rightarrow> nat \<Rightarrow> bool" where
  "sockOpen w s = (s < length (socks w) \<and> socks w ! s)"

text \<open>\<open>server.WriteToUDP(b, addr)\<close>: the write fails on a closed socket, on a nil
  address, or when the network says so. The caller gets the outcome back.\<close>

definition writeToUDP :: "env \<Rightarrow> world \<Rightarrow> nat \<Rightarrow> byte list \<Rightarrow> endpoint option \<Rightarrow> world" where
  "writeToUDP e w server b addr =
     w\<lparr>trace := trace w @
        [WriteToUDP server b addr
           (sockOpen w server \<and> addr \<noteq> None \<and> \<not> writeFails e (length (trace w)))]\<rparr>"

text \<open>\<open>generateMulticast\<close>: the resolution error is dropped, the address is then nil.\<close>

definition generateMulticast :: "env \<Rightarrow> uint16 \<Rightarrow> endpoint option" where
  "generateMulticast e u =
     (case resolveUDPAddr e (calcMulticastAddr e u @ '':5568'') of
        Inl err \<Rightarrow> None
      | Inr a \<Rightarrow> Some a)"

subsection \<open>Multicast flag\<close>

definition SetMulticast :: "world \<Rightarrow> uint16 \<Rightarrow> bool \<Rightarrow> world" where
  "SetMulticast w u b = w\<lparr>tx := (tx w)\<lparr>multicast := (multicast (tx w))(u \<mapsto> b)\<rparr>\<rparr>"

definition IsMulticast :: "world \<Rightarrow> uint16 \<Rightarrow> bool" where
  "IsMulticast w u = lookupBool (multicast (tx w)) u"

subsection \<open>Sending\<close>

text \<open>\<open>sendOut\<close>: nothing for a universe without master packet; otherwise the sequence
  number of the master packet goes up, the packet is written to the multicast address
  when the flag of the universe is set, and then to every destination of the universe.
  No result of \<open>WriteToUDP\<close> is looked at.\<close>

definition sendOut :: "env \<Rightarrow> world \<Rightarrow> nat \<Rightarrow> uint16 \<Rightarrow> world" where
  "sendOut e w server u =
     (case master (tx w) u of
        None \<Rightarrow> w
      | Some packet \<Rightarrow>
          let packet' = SequenceIncr packet;
              w1 = w\<lparr>tx := (tx w)\<lparr>master := (master (tx w))(u \<mapsto> packet')\<rparr>\<rparr>;
              w2 = (if lookupBool (multicast (tx w1)) u
                    then writeToUDP e w1 server (getBytes e packet') (generateMulticast e u)
                    else w1)
          in foldl (\<lambda>acc dest. writeToUDP e acc server (getBytes e packet')
                       (Some (loadAddr (heap acc) dest)))
               w2 (destSlice w2 u))"

subsection \<open>Construction\<close>

definition second :: int where
  "second = 1000000000"

text \<open>\<open>NewTransmitter\<close>: the transmitter with empty maps, an interval of one second and
  priority 0 (the zero value of the field the literal leaves out). The binding is tried
  by opening a socket and closing it at once; only when that worked is the binding
  kept. The transmitter is returned in either case, with the error.\<close>

definition NewTransmitter :: "env \<Rightarrow> string \<Rightarrow> byte list \<Rightarrow> string \<Rightarrow> world \<times> error option" where
  "NewTransmitter e binding c name =
     (let t = \<lparr>universes = Map.empty, master = Map.empty, destinations = Map.empty,
               multicast = Map.empty, bind = [], cid = c, sourceName = name,
               keepAliveInterval = second * 1, priority = 0\<rparr>;
          w = \<lparr>tx = t, heap = [], socks = [], nchan = 0, trace = []\<rparr>
      in case resolveUDPAddr e binding of
           Inl err \<Rightarrow> (w, Some err)
         | Inr addr \<Rightarrow>
             (case listenUDP e addr (length (socks w)) of
                Some err \<Rightarrow> (w, Some err)
              | None \<Rightarrow> (w\<lparr>tx := t\<lparr>bind := binding\<rparr>, socks := socks w @ [False]\<rparr>, None)))"

subsection \<open>Activation and the two goroutines\<close>

definition IsActivated :: "world \<Rightarrow> uint16 \<Rightarrow> bool" where
  "IsActivated w u = (universes (tx w) u \<noteq> None)"

text \<open>\<open>Activate\<close>, up to the start of the goroutines: the three error returns come
  before any assignment. On success the channel and the master packet are registered and
  the two goroutines start with the universe, the socket and the channel; the caller
  gets the channel.\<close>

definition Activate :: "env \<Rightarrow> world \<Rightarrow> uint16 \<Rightarrow> world \<times> (error + session)" where
  "Activate e w u =
     (if IsActivated w u then (w, Inl (AlreadyActivated u))
      else case resolveUDPAddr e (bind (tx w)) of
             Inl err \<Rightarrow> (w, Inl err)
           | Inr ServerAddr \<Rightarrow>
               (case listenUDP e ServerAddr (length (socks w)) of
                  Some err \<Rightarrow> (w, Inl err)
                | None \<Rightarrow>
                    let serv = length (socks w);
                        ch = nchan w;
                        p0 = SetData (SetUniverse (SetSourceName (SetCID NewDataPacket
                               (cid (tx w))) (sourceName (tx w))) u) (replicate 512 0);
                        masterPacket = (if priority (tx w) > 0
                                        then SetPriority_pkt p0 (priority (tx w)) else p0);
                        t = (tx w)\<lparr>universes := (universes (tx w))(u \<mapsto> ch),
                                    master := (master (tx w))(u \<mapsto> masterPacket)\<rparr>
                    in (w\<lparr>tx := t, socks := socks w @ [True], nchan := Suc (nchan w)\<rparr>,
                        Inr \<lparr>sUniverse = u, sServ = serv, sCh = ch\<rparr>)))"

text \<open>One turn of the keep-alive loop: leave the loop when the universe has no master
  packet; otherwise send, then sleep for the interval the transmitter holds at that
  moment. The result says whether the loop goes on.\<close>

definition keepAliveLoopBody :: "env \<Rightarrow> world \<Rightarrow> session \<Rightarrow> world \<times> bool" where
  "keepAliveLoopBody e w s =
     (case master (tx w) (sUniverse s) of
        None \<Rightarrow> (w, False)
      | Some p \<Rightarrow>
          let w1 = sendOut e w (sServ s) (sUniverse s)
          in (w1\<lparr>trace := trace w1 @ [Sleep (keepAliveInterval (tx w1))]\<rparr>, True))"

text \<open>One turn of the loop over the channel, for the payload \<open>i\<close> it received. A
  universe without master packet gives a nil pointer, and the call on it panics
  (\<open>None\<close>).\<close>

definition sendLoopBody :: "env \<Rightarrow> world \<Rightarrow> session \<Rightarrow> byte list \<Rightarrow> world option" where
  "sendLoopBody e w s i =
     (case master (tx w) (sUniverse s) of
        None \<Rightarrow> None
      | Some p \<Rightarrow>
          Some (sendOut e
                  (w\<lparr>tx := (tx w)\<lparr>master := (master (tx w))(sUniverse s \<mapsto> SetData p i)\<rparr>\<rparr>)
                  (sServ s) (sUniverse s)))"

definition closeSock :: "world \<Rightarrow> nat \<Rightarrow> world" where
  "closeSock w s = (if s < length (socks w) then w\<lparr>socks := (socks w)[s := False]\<rparr> else w)"

text \<open>After the loop, when the channel was closed: the termination flag is set, the
  packet is sent once more, the universe is deleted from both maps and the socket is
  closed.\<close>

definition sendLoopExit :: "env \<Rightarrow> world \<Rightarrow> session \<Rightarrow> world option" where
  "sendLoopExit e w s =
     (case master (tx w) (sUniverse s) of
        None \<Rightarrow> None
      | Some p \<Rightarrow>
          let w1 = w\<lparr>tx := (tx w)\<lparr>master :=
                     (master (tx w))(sUniverse s \<mapsto> SetStreamTerminated p True)\<rparr>\<rparr>;
              w2 = sendOut e w1 (sServ s) (sUniverse s);
              w3 = w2\<lparr>tx := (tx w2)\<lparr>master := (master (tx w2))(sUniverse s := None)\<rparr>\<rparr>;
              w4 = w3\<lparr>tx := (tx w3)\<lparr>universes := (universes (tx w3))(sUniverse s := None)\<rparr>\<rparr>
          in Some (closeSock w4 (sServ s)))"

subsection \<open>Destinations\<close>

text \<open>The loop of \<open>SetDestinations\<close> over the strings, with the new slice and the errors
  so far. \<open>net.ResolveUDPAddr\<close> hands back a new address, so its IP bytes get an array
  of their own in the store; appending \<open>*addr\<close> copies the struct.\<close>

fun setDestLoop ::
  "env \<Rightarrow> string list \<Rightarrow> store \<times> UDPAddr list \<times> error list \<Rightarrow> store \<times> UDPAddr list \<times> error list"
where
  "setDestLoop e [] acc = acc"
| "setDestLoop e (dest # ds) (h, newDest, errs) =
     (if dest = [] then setDestLoop e ds (h, newDest, errs)
      else case resolveUDPAddr e (dest @ '':5568'') of
             Inl err \<Rightarrow> setDestLoop e ds (h, newDest, errs @ [err])
           | Inr a \<Rightarrow>
               (case alloc h (ByteArr (epIP a)) of
                  (r, h') \<Rightarrow>
                    setDestLoop e ds
                      (h', newDest @ [\<lparr>IP = Some r, Port = epPort a, Zone = epZone a\<rparr>], errs)))"

text \<open>\<open>SetDestinations\<close>: the slice built by the loop replaces the entry of the universe.
  The result is the error slice; the nil slice returned when there is no error is the
  empty list.\<close>

definition SetDestinations :: "env \<Rightarrow> world \<Rightarrow> uint16 \<Rightarrow> string list \<Rightarrow> world \<times> error list" where
  "SetDestinations e w u dests =
     (case setDestLoop e dests (heap w, [], []) of
        (h, newDest, errs) \<Rightarrow>
          (case alloc h (AddrArr newDest) of
             (r, h') \<Rightarrow>
               (w\<lparr>tx := (tx w)\<lparr>destinations := (destinations (tx w))(u \<mapsto> r)\<rparr>, heap := h'\<rparr>,
                if length errs = 0 then [] else errs)))"

text \<open>The builtin \<open>copy(dst, src)\<close>: as many elements as the shorter slice has.\<close>

definition copy_slice :: "'a list \<Rightarrow> 'a list \<Rightarrow> 'a list" where
  "copy_slice dst src =
     take (min (length dst) (length src)) src @ drop (min (length dst) (length src)) dst"

definition zeroUDPAddr :: UDPAddr where
  "zeroUDPAddr = \<lparr>IP = None, Port = 0, Zone = []\<rparr>"

text \<open>\<open>Destinations\<close>: a new slice of the same length, filled by \<open>copy\<close>. The result is
  the reference to the new backing array.\<close>

definition Destinations :: "world \<Rightarrow> uint16 \<Rightarrow> world \<times> nat" where
  "Destinations w u =
     (let src = destSlice w u;
          new = copy_slice (replicate (length src) zeroUDPAddr) src
      in case alloc (heap w) (AddrArr new) of (r, h') \<Rightarrow> (w\<lparr>heap := h'\<rparr>, r))"

text \<open>What a caller sees in a slice of addresses it holds: the addresses with their IP
  bytes.\<close>

definition viewSlice :: "world \<Rightarrow> nat \<Rightarrow> endpoint list" where
  "viewSlice w r = map (loadAddr (heap w)) (addrsAt (heap w) r)"

subsection \<open>Defaults\<close>

definition SetKeepAlive :: "world \<Rightarrow> int \<Rightarrow> world" where
  "SetKeepAlive w interval = w\<lparr>tx := (tx w)\<lparr>keepAliveInterval := interval\<rparr>\<rparr>"

definition SetPriority :: "world \<Rightarrow> byte \<Rightarrow> world" where
  "SetPriority w prio = w\<lparr>tx := (tx w)\<lparr>priority := prio\<rparr>\<rparr>"

subsection \<open>What a caller can do with a slice it holds\<close>

text \<open>The assignment \<open>d[i] = v\<close> on a slice of addresses; an index out of range
  panics (\<open>None\<close>).\<close>

definition sliceAssign :: "world \<Rightarrow> nat \<Rightarrow> nat \<Rightarrow> UDPAddr \<Rightarrow> world option" where
  "sliceAssign w r i v =
     (if i < length (addrsAt (heap w) r)
      then Some (w\<lparr>heap := (heap w)[r := AddrArr ((addrsAt (heap w) r)[i := v])]\<rparr>)
      else None)"

text \<open>The assignment \<open>d[i].IP[j] = b\<close>: it writes into the array the IP slice of the
  element points to.\<close>

definition ipAssign :: "world \<Rightarrow> nat \<Rightarrow> nat \<Rightarrow> nat \<Rightarrow> byte \<Rightarrow> world option" where
  "ipAssign w r i j b =
     (if i < length (addrsAt (heap w) r)
      then (case IP (addrsAt (heap w) r ! i) of
              None \<Rightarrow> None
            | Some q \<Rightarrow>
                if j < length (bytesAt (heap w) q)
                then Some (w\<lparr>heap := (heap w)[q := ByteArr ((bytesAt (heap w) q)[j := b])]\<rparr>)
                else None)
      else None)"

subsection \<open>Runs\<close>

text \<open>The calls a program makes on a transmitter, and the turns its goroutines take,
  one after the other. A panic ends the run (\<open>None\<close>).\<close>

datatype op =
    OpActivate uint16
  | OpSetMulticast uint16 bool
  | OpSetDestinations uint16 "string list"
  | OpDestinations uint16
  | OpSetKeepAlive int
  | OpSetPriority byte
  | OpKeepAlive session
  | OpSendData session "byte list"
  | OpClose session
  | OpSliceAssign nat nat UDPAddr
  | OpIPAssign nat nat nat byte

fun step :: "env \<Rightarrow> world \<Rightarrow> op \<Rightarrow> world option" where
  "step e w (OpActivate u) = Some (fst (Activate e w u))"
| "step e w (OpSetMulticast u b) = Some (SetMulticast w u b)"
| "step e w (OpSetDestinations u ds) = Some (fst (SetDestinations e w u ds))"
| "step e w (OpDestinations u) = Some (fst (Destinations w u))"
| "step e w (OpSetKeepAlive d) = Some (SetKeepAlive w d)"
| "step e w (OpSetPriority p) = Some (SetPriority w p)"
| "step e w (OpKeepAlive s) = Some (fst (keepAliveLoopBody e w s))"
| "step e w (OpSendData s i) = sendLoopBody e w s i"
| "step e w (OpClose s) = sendLoopExit e w s"
| "step e w (OpSliceAssign r i v) = sliceAssign w r i v"
| "step e w (OpIPAssign r i j b) = ipAssign w r i j b"

fun run :: "env \<Rightarrow> world \<Rightarrow> op list \<Rightarrow> world option" where
  "run e w [] = Some w"
| "run e w (x # xs) = (case step e w x of None \<Rightarrow> None | Some w' \<Rightarrow> run e w' xs)"

text \<open>The values passed to \<open>SetMulticast\<close> for a universe in a run, in the order of the
  calls.\<close>

fun multicastCalls :: "uint16 \<Rightarrow> op list \<Rightarrow> bool list" where
  "multicastCalls u [] = []"
| "multicastCalls u (OpSetMulticast v b # xs) =
     (if v = u then b # multicastCalls u xs else multicastCalls u xs)"
| "multicastCalls u (x # xs) = multicastCalls u xs"

subsection \<open>The writes of one transmit\<close>

text \<open>The addresses one \<open>sendOut\<close> writes to, in the order of the writes: the multicast
  address when the flag of the universe is set, then the destinations of the universe.\<close>

definition targets :: "env \<Rightarrow> world \<Rightarrow> uint16 \<Rightarrow> endpoint option list" where
  "targets e w u =
     (if lookupBool (multicast (tx w)) u then [generateMulticast e u] else []) @
     map (\<lambda>dest. Some (loadAddr (heap w) dest)) (destSlice w u)"

text \<open>A write without its outcome: socket, bytes and address.\<close>

fun attempt :: "event \<Rightarrow> (nat \<times> byte list \<times> endpoint option) option" where
  "attempt (WriteToUDP s b a ok) = Some (s, b, a)"
| "attempt (Sleep d) = None"

text \<open>The writes one after the other, as a function of the list of addresses, and the
  events they leave: the n-th event of the run fails when the socket is closed, the
  address is nil or the network says so.\<close>

definition writeAll :: "env \<Rightarrow> world \<Rightarrow> nat \<Rightarrow> byte list \<Rightarrow> endpoint option list \<Rightarrow> world" where
  "writeAll e w server b as = foldl (\<lambda>acc a. writeToUDP e acc server b a) w as"

fun writeEvents ::
  "env \<Rightarrow> bool \<Rightarrow> nat \<Rightarrow> byte list \<Rightarrow> nat \<Rightarrow> endpoint option list \<Rightarrow> event list"
where
  "writeEvents e opn server b n [] = []"
| "writeEvents e opn server b n (a # as) =
     WriteToUDP server b a (opn \<and> a \<noteq> None \<and> \<not> writeFails e n) #
     writeEvents e opn server b (Suc n) as"

text \<open>The events between an earlier state and a later one.\<close>

definition newEvents :: "world \<Rightarrow> world \<Rightarrow> event list" where
  "newEvents w w' = drop (length (trace w)) (trace w')"

subsection \<open>An environment for examples\<close>

text \<open>A resolver that knows two hosts, the empty binding and one multicast group; a
  network on which every second write fails; packets serialised as sequence number,
  termination flag and the first two bytes of the payload.\<close>

definition testResolve :: "string \<Rightarrow> error + endpoint" where
  "testResolve s =
     (if s = [] then Inr \<lparr>epIP = [], epPort = 0, epZone = []\<rparr>
      else if s = ''10.0.0.5:5568'' then Inr \<lparr>epIP = [10, 0, 0, 5], epPort = 5568, epZone = []\<rparr>
      else if s = ''10.0.0.6:5568'' then Inr \<lparr>epIP = [10, 0, 0, 6], epPort = 5568, epZone = []\<rparr>
      else if s = ''239.255.0.1:5568'' then Inr \<lparr>epIP = [239, 255, 0, 1], epPort = 5568, epZone = []\<rparr>
      else Inl (NetError s))"

definition testEnv :: env where
  "testEnv =
     \<lparr>resolveUDPAddr = testResolve,
      listenUDP = (\<lambda>a n. None),
      writeFails = (\<lambda>n. odd n),
      calcMulticastAddr = (\<lambda>u. ''239.255.0.1''),
      getBytes = (\<lambda>p. pktSequence p # (if pktStreamTerminated p then 1 else 0) # take 2 (pktData p))\<rparr>"

text \<open>A transmitter made with the empty binding, and the same with universe 1
  activated.\<close>

definition world0 :: world where
  "world0 = fst (NewTransmitter testEnv [] (replicate 16 7) ''test'')"

definition world1 :: world where
  "world1 = fst (Activate testEnv world0 1)"

definition session1 :: session where
  "session1 = \<lparr>sUniverse = 1, sServ = 1, sCh = 0\<rparr>"

text \<open>The master packet \<open>Activate\<close> makes for universe 1 in that transmitter.\<close>

definition packet1 :: DataPacket where
  "packet1 =
     \<lparr>pktCID = replicate 16 7, pktSourceName = ''test'', pktUniverse = 1,
      pktData = replicate 512 0, pktPriority = 0, pktSequence = 0,
      pktStreamTerminated = False\<rparr>"

text \<open>The same transmitter with multicast switched on for universe 1 and two unicast
  destinations.\<close>

definition world2 :: world where
  "world2 =
     fst (SetDestinations testEnv (SetMulticast world1 1 True) 1 [''10.0.0.5'', ''10.0.0.6''])"

subsection \<open>What \<open>SetDestinations\<close> is to compute\<close>

text \<open>The addresses of the strings that are not empty and resolve, with \<open>:5568\<close> put
  behind each, in the order of the input; and the errors of those that are not empty and
  do not resolve.\<close>

definition resolvedOf :: "env \<Rightarrow> string list \<Rightarrow> endpoint list" where
  "resolvedOf e dests =
     concat (map (\<lambda>d. case resolveUDPAddr e (d @ '':5568'') of Inl err \<Rightarrow> [] | Inr a \<Rightarrow> [a])
               (filter (\<lambda>d. d \<noteq> []) dests))"

definition errorsOf :: "env \<Rightarrow> string list \<Rightarrow> error list" where
  "errorsOf e dests =
     concat (map (\<lambda>d. case resolveUDPAddr e (d @ '':5568'') of Inl err \<Rightarrow> [err] | Inr a \<Rightarrow> [])
               (filter (\<lambda>d. d \<noteq> []) dests))"

text \<open>The structs for a list of resolved addresses whose IP arrays lie in the store one
  after the other from position \<open>n\<close> on.\<close>

fun newAddrs :: "nat \<Rightarrow> endpoint list \<Rightarrow> UDPAddr list" where
  "newAddrs n [] = []"
| "newAddrs n (a # as) = \<lparr>IP = Some n, Port = epPort a, Zone = epZone a\<rparr> # newAddrs (Suc n) as"

subsection \<open>Further examples and readings of a run\<close>

text \<open>The intervals passed to \<open>SetKeepAlive\<close> in a run, in the order of the calls.\<close>

fun keepAliveCalls :: "op list \<Rightarrow> int list" where
  "keepAliveCalls [] = []"
| "keepAliveCalls (OpSetKeepAlive d # xs) = d # keepAliveCalls xs"
| "keepAliveCalls (x # xs) = keepAliveCalls xs"

text \<open>The empty transmitter with one unicast destination for universe 1, and the same
  after a call of \<open>Destinations\<close> for universe 1, which returns the slice at address 2.\<close>

definition world3 :: world where
  "world3 = fst (SetDestinations testEnv world0 1 [''10.0.0.5''])"

definition world4 :: world where
  "world4 = fst (Destinations world3 1)"

section \<open>The two goroutines of a session, step by step\<close>

text \<open>\<open>Activate\<close> starts two goroutines that share the master packet, the maps and
  the socket, and nothing in the source orders their steps. Here each goroutine runs
  one statement at a time and a schedule says whose turn it is. The state holds what
  the two share for one universe: the master packet (one object, reached through the
  map and through the variable \<open>packet\<close> of \<open>sendOut\<close>), whether the maps \<open>master\<close> and
  \<open>universes\<close> still hold the universe, whether the socket is open, the multicast flag,
  the destinations and the interval as the caller last set them, and where each
  goroutine stands.\<close>

datatype tid = KeepAlive | Sender

text \<open>What is recorded: a transmit is issued (its \<open>sendOut\<close> passed the guard), a
  write, the return of an issued \<open>sendOut\<close>, a sleep, the setting of the termination
  flag and the deletion from the map \<open>master\<close>.\<close>

datatype cevent =
    Issued tid
  | Written tid "byte list" "endpoint option" bool
  | Returned tid
  | Slept int
  | TermFlagSet
  | Deleted

text \<open>The statements of \<open>sendOut\<close>: the guard, the read of the map into \<open>packet\<close>, the
  increment (with whether \<open>packet\<close> is not nil), the multicast write, the evaluation of
  the range expression, and one write for each destination left.\<close>

datatype sopc = SoGuard | SoLoad | SoIncr bool | SoMcast | SoRange | SoDest "endpoint list"

text \<open>The statements of the keep-alive goroutine: the check of the map, the call of
  \<open>sendOut\<close>, the sleep; and the end after \<open>break\<close>.\<close>

datatype kpc = KCheck | KSend sopc | KSleep | KDone

text \<open>The statements of the send goroutine: the receive from the channel, \<open>SetData\<close>,
  \<open>sendOut\<close>; after the loop \<open>SetStreamTerminated\<close>, the last \<open>sendOut\<close>, the two
  deletions and the close of the socket.\<close>

datatype spc =
    SRecv | SSetData "byte list" | SSend sopc
  | STerm | SSendLast sopc | SDelMaster | SDelUniverses | SClose | SDone

record cstate =
  cPkt :: DataPacket
  cInMaster :: bool
  cInUniverses :: bool
  cSockOpen :: bool
  cMulticast :: bool
  cDests :: "endpoint list"
  cInterval :: int
  cLog :: "cevent list"
  cK :: kpc
  cS :: spc
  cPanic :: bool

text \<open>A turn: the keep-alive goroutine or the send goroutine runs its next statement,
  the caller sends a payload on the channel or closes it (the send goroutine takes
  either only while it waits at the receive), or the caller changes the
  configuration.\<close>

datatype act =
    StepK | StepS | Deliver "byte list" | CloseCh
  | UserSetMulticast bool | UserSetDests "endpoint list" | UserSetKeepAlive int

datatype sores = Cont sopc | Ret | Pan

definition cwrite :: "env \<Rightarrow> tid \<Rightarrow> cstate \<Rightarrow> endpoint option \<Rightarrow> cstate" where
  "cwrite e t st addr =
     st\<lparr>cLog := cLog st @
        [Written t (getBytes e (cPkt st)) addr
           (cSockOpen st \<and> addr \<noteq> None \<and> \<not> writeFails e (length (cLog st)))]\<rparr>"

text \<open>One statement of \<open>sendOut\<close>, run by goroutine \<open>t\<close>. After the guard the map is
  read again: when the universe has been deleted in between, \<open>packet\<close> is nil and the
  call on it panics. A \<open>packet\<close> that is not nil points to the master packet of the
  session, also after the deletion.\<close>

fun soStep :: "env \<Rightarrow> uint16 \<Rightarrow> tid \<Rightarrow> sopc \<Rightarrow> cstate \<Rightarrow> cstate \<times> sores" where
  "soStep e u t SoGuard st =
     (if cInMaster st then (st\<lparr>cLog := cLog st @ [Issued t]\<rparr>, Cont SoLoad) else (st, Ret))"
| "soStep e u t SoLoad st = (st, Cont (SoIncr (cInMaster st)))"
| "soStep e u t (SoIncr nonnil) st =
     (if nonnil then (st\<lparr>cPkt := SequenceIncr (cPkt st)\<rparr>, Cont SoMcast) else (st, Pan))"
| "soStep e u t SoMcast st =
     ((if cMulticast st then cwrite e t st (generateMulticast e u) else st), Cont SoRange)"
| "soStep e u t SoRange st = (st, Cont (SoDest (cDests st)))"
| "soStep e u t (SoDest []) st = (st\<lparr>cLog := cLog st @ [Returned t]\<rparr>, Ret)"
| "soStep e u t (SoDest (dest # ds)) st = (cwrite e t st (Some dest), Cont (SoDest ds))"

definition stepK :: "env \<Rightarrow> uint16 \<Rightarrow> cstate \<Rightarrow> cstate" where
  "stepK e u st =
     (case cK st of
        KCheck \<Rightarrow> st\<lparr>cK := (if cInMaster st then KSend SoGuard else KDone)\<rparr>
      | KSend pc \<Rightarrow>
          (case soStep e u KeepAlive pc st of
             (st', Cont pc') \<Rightarrow> st'\<lparr>cK := KSend pc'\<rparr>
           | (st', Ret) \<Rightarrow> st'\<lparr>cK := KSleep\<rparr>
           | (st', Pan) \<Rightarrow> st'\<lparr>cPanic := True\<rparr>)
      | KSleep \<Rightarrow> st\<lparr>cLog := cLog st @ [Slept (cInterval st)], cK := KCheck\<rparr>
      | KDone \<Rightarrow> st)"

definition stepS :: "env \<Rightarrow> uint16 \<Rightarrow> cstate \<Rightarrow> cstate" where
  "stepS e u st =
     (case cS st of
        SRecv \<Rightarrow> st
      | SSetData i \<Rightarrow>
          (if cInMaster st then st\<lparr>cPkt := SetData (cPkt st) i, cS := SSend SoGuard\<rparr>
           else st\<lparr>cPanic := True\<rparr>)
      | SSend pc \<Rightarrow>
          (case soStep e u Sender pc st of
             (st', Cont pc') \<Rightarrow> st'\<lparr>cS := SSend pc'\<rparr>
           | (st', Ret) \<Rightarrow> st'\<lparr>cS := SRecv\<rparr>
           | (st', Pan) \<Rightarrow> st'\<lparr>cPanic := True\<rparr>)
      | STerm \<Rightarrow>
          (if cInMaster st
           then st\<lparr>cPkt := SetStreamTerminated (cPkt st) True,
                   cLog := cLog st @ [TermFlagSet], cS := SSendLast SoGuard\<rparr>
           else st\<lparr>cPanic := True\<rparr>)
      | SSendLast pc \<Rightarrow>
          (case soStep e u Sender pc st of
             (st', Cont pc') \<Rightarrow> st'\<lparr>cS := SSendLast pc'\<rparr>
           | (st', Ret) \<Rightarrow> st'\<lparr>cS := SDelMaster\<rparr>
           | (st', Pan) \<Rightarrow> st'\<lparr>cPanic := True\<rparr>)
      | SDelMaster \<Rightarrow> st\<lparr>cInMaster := False, cLog := cLog st @ [Deleted], cS := SDelUniverses\<rparr>
      | SDelUniverses \<Rightarrow> st\<lparr>cInUniverses := False, cS := SClose\<rparr>
      | SClose \<Rightarrow> st\<lparr>cSockOpen := False, cS := SDone\<rparr>
      | SDone \<Rightarrow> st)"

text \<open>One turn of the schedule. A panic ends the program: no turn changes the state
  after it.\<close>

definition cstep :: "env \<Rightarrow> uint16 \<Rightarrow> cstate \<Rightarrow> act \<Rightarrow> cstate" where
  "cstep e u st a =
     (if cPanic st then st
      else case a of
        StepK \<Rightarrow> stepK e u st
      | StepS \<Rightarrow> stepS e u st
      | Deliver i \<Rightarrow> (if cS st = SRecv then st\<lparr>cS := SSetData i\<rparr> else st)
      | CloseCh \<Rightarrow> (if cS st = SRecv then st\<lparr>cS := STerm\<rparr> else st)
      | UserSetMulticast b \<Rightarrow> st\<lparr>cMulticast := b\<rparr>
      | UserSetDests ds \<Rightarrow> st\<lparr>cDests := ds\<rparr>
      | UserSetKeepAlive d \<Rightarrow> st\<lparr>cInterval := d\<rparr>)"

definition exec :: "env \<Rightarrow> uint16 \<Rightarrow> cstate \<Rightarrow> act list \<Rightarrow> cstate" where
  "exec e u st acts = foldl (cstep e u) st acts"

text \<open>The state right after \<open>Activate\<close>: both maps hold the universe, the socket is
  open, the keep-alive goroutine is at its check and the send goroutine at the
  receive.\<close>

definition cinit :: "DataPacket \<Rightarrow> bool \<Rightarrow> endpoint list \<Rightarrow> int \<Rightarrow> cstate" where
  "cinit p mc ds iv =
     \<lparr>cPkt = p, cInMaster = True, cInUniverses = True, cSockOpen = True, cMulticast = mc,
      cDests = ds, cInterval = iv, cLog = [], cK = KCheck, cS = SRecv, cPanic = False\<rparr>"

text \<open>Reading a record of events for the order of the send goroutine's transmits: a
  transmit of the send goroutine may be issued only when none of its own is under way,
  the flag may be set only then, after the flag only one more may be issued, and after
  that one has returned none; anything else is \<open>PBad\<close>.\<close>

datatype sphase = PIdle | PBusy | PTermIdle | PTermBusy | PTermDone | PBad

fun sstep :: "sphase \<Rightarrow> cevent \<Rightarrow> sphase" where
  "sstep PIdle (Issued Sender) = PBusy"
| "sstep PBusy (Returned Sender) = PIdle"
| "sstep PIdle TermFlagSet = PTermIdle"
| "sstep PTermIdle (Issued Sender) = PTermBusy"
| "sstep PTermBusy (Returned Sender) = PTermDone"
| "sstep ph (Issued Sender) = PBad"
| "sstep ph (Returned Sender) = PBad"
| "sstep ph TermFlagSet = PBad"
| "sstep ph ev = ph"

definition senderPhase :: "cevent list \<Rightarrow> sphase" where
  "senderPhase evs = foldl sstep PIdle evs"

text \<open>Reading a record of events for transmits after the deletion: \<open>DBad\<close> when a
  transmit of either goroutine is issued after the universe was deleted from the map
  \<open>master\<close>.\<close>

datatype dphase = DLive | DDeleted | DBad

fun dstep :: "dphase \<Rightarrow> cevent \<Rightarrow> dphase" where
  "dstep DLive Deleted = DDeleted"
| "dstep DDeleted (Issued t) = DBad"
| "dstep ph ev = ph"

definition deletePhase :: "cevent list \<Rightarrow> dphase" where
  "deletePhase evs = foldl dstep DLive evs"



text \<open>An example: universe 1 with its new master packet, multicast off, one unicast
  destination, on a network where no write fails.\<close>

definition dest5 :: endpoint where
  "dest5 = \<lparr>epIP = [10, 0, 0, 5], epPort = 5568, epZone = []\<rparr>"

definition cstate1 :: cstate where
  "cstate1 = cinit packet1 False [dest5] second"

definition quietEnv :: env where
  "quietEnv = testEnv\<lparr>writeFails := \<lambda>n. False\<rparr>"

text \<open>The state of the two goroutines that goes with a state of the transmitter in
  which the universe of the session has the master packet \<open>p\<close>.\<close>

definition cstateOf :: "world \<Rightarrow> uint16 \<Rightarrow> DataPacket \<Rightarrow> cstate" where
  "cstateOf w u p =
     cinit p (lookupBool (multicast (tx w)) u) (map (loadAddr (heap w)) (destSlice w u))
       (keepAliveInterval (tx w))"

text \<open>The bytes and addresses written, in order, in a record of the goroutines and in
  the events of the transmitter.\<close>

fun cwritten :: "cevent list \<Rightarrow> (byte list \<times> endpoint option) list" where
  "cwritten [] = []"
| "cwritten (Written t b a ok # evs) = (b, a) # cwritten evs"
| "cwritten (ev # evs) = cwritten evs"

fun written :: "event list \<Rightarrow> (byte list \<times> endpoint option) list" where
  "written [] = []"
| "written (WriteToUDP s b a ok # evs) = (b, a) # written evs"
| "written (ev # evs) = written evs"

text \<open>Every reference the transmitter holds points into the store: the destination
  slices of the universes, and the IP slices of the addresses in every array.\<close>

definition wfStore :: "world \<Rightarrow> bool" where
  "wfStore w \<longleftrightarrow>
     (\<forall>u r. destinations (tx w) u = Some r \<longrightarrow> r < length (heap w)) \<and>
     (\<forall>r xs a q. r < length (heap w) \<longrightarrow> heap w ! r = AddrArr xs \<longrightarrow> a \<in> set xs \<longrightarrow>
        IP a = Some q \<longrightarrow> q < length (heap w))"

section \<open>Properties\<close>

subsection \<open>Writes\<close>

lemma writeToUDP_frame [simp]:
  "tx (writeToUDP e w s b a) = tx w"
  "heap (writeToUDP e w s b a) = heap w"
  "socks (writeToUDP e w s b a) = socks w"
  "nchan (writeToUDP e w s b a) = nchan w"
  by (simp_all add: writeToUDP_def)

lemma sockOpen_writeToUDP [simp]: "sockOpen (writeToUDP e w s b a) s' = sockOpen w s'"
  by (simp add: sockOpen_def)

lemma writeAll_Nil [simp]: "writeAll e w s b [] = w"
  by (simp add: writeAll_def)

lemma writeAll_Cons [simp]:
  "writeAll e w s b (a # as) = writeAll e (writeToUDP e w s b a) s b as"
  by (simp add: writeAll_def)

lemma writeAll_eq:
  "writeAll e w s b as =
   w\<lparr>trace := trace w @ writeEvents e (sockOpen w s) s b (length (trace w)) as\<rparr>"
proof (induction as arbitrary: w)
  case Nil
  show ?case by simp
next
  case (Cons a as)
  show ?case
    by (simp add: Cons.IH) (simp add: writeToUDP_def sockOpen_def)
qed

lemma foldl_dest_writeAll:
  "foldl (\<lambda>acc dest. writeToUDP e acc s b (Some (loadAddr (heap acc) dest))) w ds =
   writeAll e w s b (map (\<lambda>dest. Some (loadAddr (heap w) dest)) ds)"
  by (induction ds arbitrary: w) simp_all

lemma map_attempt_writeEvents:
  "map attempt (writeEvents e opn s b n as) = map (\<lambda>a. Some (s, b, a)) as"
  by (induction as arbitrary: n) simp_all

lemma length_writeEvents [simp]: "length (writeEvents e opn s b n as) = length as"
  by (induction as arbitrary: n) simp_all

subsection \<open>\<open>sendOut\<close> in closed form\<close>

lemma sendOut_None: "master (tx w) u = None \<Longrightarrow> sendOut e w s u = w"
  by (simp add: sendOut_def)

lemma sendOut_writeAll:
  assumes "master (tx w) u = Some p"
  shows "sendOut e w s u =
         writeAll e (w\<lparr>tx := (tx w)\<lparr>master := (master (tx w))(u \<mapsto> SequenceIncr p)\<rparr>\<rparr>) s
           (getBytes e (SequenceIncr p)) (targets e w u)"
  using assms
  by (simp add: sendOut_def Let_def foldl_dest_writeAll targets_def destSlice_def
      split: option.split)

lemma sendOut_Some:
  assumes "master (tx w) u = Some p"
  shows "sendOut e w s u =
         w\<lparr>tx := (tx w)\<lparr>master := (master (tx w))(u \<mapsto> SequenceIncr p)\<rparr>,
           trace := trace w @ writeEvents e (sockOpen w s) s (getBytes e (SequenceIncr p))
                      (length (trace w)) (targets e w u)\<rparr>"
  by (simp add: sendOut_writeAll [OF assms] writeAll_eq sockOpen_def)

subsection \<open>The example states\<close>

lemma world0_eq:
  "world0 =
     \<lparr>tx = \<lparr>universes = Map.empty, master = Map.empty, destinations = Map.empty,
            multicast = Map.empty, bind = [], cid = replicate 16 7, sourceName = ''test'',
            keepAliveInterval = second, priority = 0\<rparr>,
      heap = [], socks = [False], nchan = 0, trace = []\<rparr>"
  by (simp add: world0_def NewTransmitter_def testEnv_def testResolve_def)

lemma Activate_world0:
  "Activate testEnv world0 1 =
     (\<lparr>tx = \<lparr>universes = [1 \<mapsto> 0], master = [1 \<mapsto> packet1], destinations = Map.empty,
             multicast = Map.empty, bind = [], cid = replicate 16 7, sourceName = ''test'',
             keepAliveInterval = second, priority = 0\<rparr>,
       heap = [], socks = [False, True], nchan = 1, trace = []\<rparr>, Inr session1)"
  by (simp add: world0_eq Activate_def IsActivated_def testEnv_def testResolve_def session1_def
      packet1_def NewDataPacket_def SetCID_def SetSourceName_def SetUniverse_def SetData_def)

lemma world1_eq:
  "world1 =
     \<lparr>tx = \<lparr>universes = [1 \<mapsto> 0], master = [1 \<mapsto> packet1], destinations = Map.empty,
            multicast = Map.empty, bind = [], cid = replicate 16 7, sourceName = ''test'',
            keepAliveInterval = second, priority = 0\<rparr>,
      heap = [], socks = [False, True], nchan = 1, trace = []\<rparr>"
  by (simp add: world1_def Activate_world0)

subsection \<open>What each operation leaves alone\<close>

lemma multicast_sendOut [simp]: "multicast (tx (sendOut e w s u)) = multicast (tx w)"
  by (cases "master (tx w) u") (simp add: sendOut_def, simp add: sendOut_Some)

lemma keepAliveInterval_sendOut [simp]:
  "keepAliveInterval (tx (sendOut e w s u)) = keepAliveInterval (tx w)"
  by (cases "master (tx w) u") (simp add: sendOut_def, simp add: sendOut_Some)

lemma multicast_Activate [simp]: "multicast (tx (fst (Activate e w u))) = multicast (tx w)"
  by (simp add: Activate_def Let_def split: sum.split option.split)

lemma keepAliveInterval_Activate [simp]:
  "keepAliveInterval (tx (fst (Activate e w u))) = keepAliveInterval (tx w)"
  by (simp add: Activate_def Let_def split: sum.split option.split)

lemma tx_SetDestinations:
  "tx (fst (SetDestinations e w u ds)) =
   (tx w)\<lparr>destinations :=
      (destinations (tx w))(u \<mapsto> length (fst (setDestLoop e ds (heap w, [], []))))\<rparr>"
  by (simp add: SetDestinations_def alloc_def split: prod.split)

lemma tx_Destinations [simp]: "tx (fst (Destinations w u)) = tx w"
  by (simp add: Destinations_def Let_def alloc_def)

lemma tx_sliceAssign: "sliceAssign w r i v = Some w' \<Longrightarrow> tx w' = tx w"
  by (auto simp: sliceAssign_def split: if_splits)

lemma tx_ipAssign: "ipAssign w r i j b = Some w' \<Longrightarrow> tx w' = tx w"
  by (auto simp: ipAssign_def split: if_splits option.splits)

lemma tx_closeSock [simp]: "tx (closeSock w s) = tx w"
  by (simp add: closeSock_def)

lemma multicast_sendLoopBody:
  "sendLoopBody e w s i = Some w' \<Longrightarrow> multicast (tx w') = multicast (tx w)"
  by (auto simp: sendLoopBody_def split: option.splits)

lemma multicast_sendLoopExit:
  "sendLoopExit e w s = Some w' \<Longrightarrow> multicast (tx w') = multicast (tx w)"
  by (auto simp: sendLoopExit_def Let_def split: option.splits)

lemma multicast_keepAliveLoopBody [simp]:
  "multicast (tx (fst (keepAliveLoopBody e w s))) = multicast (tx w)"
  by (simp add: keepAliveLoopBody_def Let_def split: option.split)

lemma step_multicast:
  "step e w x = Some w' \<Longrightarrow>
   multicast (tx w') =
     (case x of OpSetMulticast v b \<Rightarrow> (multicast (tx w))(v \<mapsto> b) | _ \<Rightarrow> multicast (tx w))"
  by (cases x)
     (auto simp: SetMulticast_def tx_SetDestinations SetKeepAlive_def SetPriority_def
        multicast_sendLoopBody multicast_sendLoopExit tx_sliceAssign tx_ipAssign)

lemma run_multicast:
  "run e w ops = Some w' \<Longrightarrow>
   IsMulticast w' u =
     (if multicastCalls u ops = [] then IsMulticast w u else last (multicastCalls u ops))"
proof (induction ops arbitrary: w)
  case Nil
  then show ?case by simp
next
  case (Cons x xs)
  from Cons.prems obtain w1 where s: "step e w x = Some w1" and r: "run e w1 xs = Some w'"
    by (auto split: option.splits)
  note ih = Cons.IH [OF r]
  note m = step_multicast [OF s]
  show ?case
  proof (cases x)
    case (OpSetMulticast v b)
    with ih m show ?thesis by (simp add: IsMulticast_def lookupBool_def)
  qed (use ih m in \<open>simp_all add: IsMulticast_def\<close>)
qed

lemma IsMulticast_NewTransmitter: "IsMulticast (fst (NewTransmitter e b c n)) u = False"
  by (simp add: NewTransmitter_def IsMulticast_def lookupBool_def Let_def
      split: sum.split option.split)

subsection \<open>Sending, the multicast flag and activation\<close>

text \<open>C9: for a universe that has no entry in the map of master packets, \<open>sendOut\<close> does
  nothing at all: the whole state (transmitter, store, sockets, and the events, so no
  sequence number and no network write) is what it was.\<close>

theorem sendOut_not_activated_noop:
  "master (tx w) u = None \<Longrightarrow> sendOut e w server u = w"
  by (simp add: sendOut_def)

theorem sendOut_not_activated_noop_witness:
  "master (tx world1) 2 = None \<and> sendOut testEnv world1 1 2 = world1"
  using sendOut_not_activated_noop [of world1 2 testEnv 1]
  by (simp add: world1_eq)

text \<open>C10: in any run that starts from a new transmitter, \<open>IsMulticast\<close> for a universe
  gives \<open>false\<close> when \<open>SetMulticast\<close> was never called for that universe, and otherwise
  the value of the last such call. The run may hold any other call in between:
  activations and closes of this or any universe, and \<open>SetMulticast\<close> for other
  universes.\<close>

theorem IsMulticast_most_recent_SetMulticast:
  "run e (fst (NewTransmitter e binding c name)) ops = Some w \<Longrightarrow>
   IsMulticast w u =
     (if multicastCalls u ops = [] then False else last (multicastCalls u ops))"
  by (simp add: run_multicast IsMulticast_NewTransmitter)

theorem IsMulticast_most_recent_SetMulticast_witness:
  "\<exists>w. run testEnv (fst (NewTransmitter testEnv [] (replicate 16 7) ''test''))
          [OpSetMulticast 1 False, OpActivate 1, OpSetMulticast 2 False,
           OpSetMulticast 1 True, OpClose session1] = Some w \<and>
        IsMulticast w 1 \<and> \<not> IsMulticast w 2 \<and> \<not> IsMulticast w 3"
proof -
  let ?ops = "[OpSetMulticast 1 False, OpActivate 1, OpSetMulticast 2 False,
               OpSetMulticast 1 True, OpClose session1]"
  let ?w0 = "fst (NewTransmitter testEnv [] (replicate 16 7) ''test'')"
  obtain w where r: "run testEnv ?w0 ?ops = Some w"
    by (simp add: sendLoopExit_def SetMulticast_def NewTransmitter_def Activate_def
        IsActivated_def testEnv_def testResolve_def session1_def Let_def)
  have "IsMulticast w 1" "\<not> IsMulticast w 2" "\<not> IsMulticast w 3"
    using IsMulticast_most_recent_SetMulticast [OF r, of 1]
      IsMulticast_most_recent_SetMulticast [OF r, of 2]
      IsMulticast_most_recent_SetMulticast [OF r, of 3]
    by simp_all
  with r show ?thesis by blast
qed

lemma world2_eq:
  "world2 =
     \<lparr>tx = \<lparr>universes = [1 \<mapsto> 0], master = [1 \<mapsto> packet1], destinations = [1 \<mapsto> 2],
            multicast = [1 \<mapsto> True], bind = [], cid = replicate 16 7, sourceName = ''test'',
            keepAliveInterval = second, priority = 0\<rparr>,
      heap = [ByteArr [10, 0, 0, 5], ByteArr [10, 0, 0, 6],
              AddrArr [\<lparr>IP = Some 0, Port = 5568, Zone = []\<rparr>,
                       \<lparr>IP = Some 1, Port = 5568, Zone = []\<rparr>]],
      socks = [False, True], nchan = 1, trace = []\<rparr>"
  by (simp add: world2_def world1_eq SetMulticast_def SetDestinations_def alloc_def testEnv_def
      testResolve_def numeral_2_eq_2)

text \<open>C7: a transmit for a universe with a master packet calls \<open>WriteToUDP\<close> with the
  bytes of the packet (its sequence number already raised) first for the multicast
  address, if and only if multicast is on for the universe, and then for every unicast
  destination of the universe in the order of the list. This holds whatever writes fail
  (\<open>f\<close> says which writes of the run do): no failure keeps a later write from being
  tried.\<close>

theorem sendOut_writes_in_order:
  "master (tx w) u = Some p \<Longrightarrow>
   map attempt (newEvents w (sendOut (e\<lparr>writeFails := f\<rparr>) w server u)) =
   map (\<lambda>a. Some (server, getBytes e (SequenceIncr p), a))
     ((if IsMulticast w u then [generateMulticast e u] else []) @
      map (\<lambda>dest. Some (loadAddr (heap w) dest)) (destSlice w u))"
  by (simp add: sendOut_Some newEvents_def map_attempt_writeEvents targets_def IsMulticast_def
      generateMulticast_def)

theorem sendOut_writes_in_order_witness:
  "master (tx world2) 1 = Some packet1 \<and>
   map attempt (newEvents world2 (sendOut (testEnv\<lparr>writeFails := \<lambda>n. True\<rparr>) world2 1 1)) =
     [Some (1, [1, 0, 0, 0], Some \<lparr>epIP = [239, 255, 0, 1], epPort = 5568, epZone = []\<rparr>),
      Some (1, [1, 0, 0, 0], Some \<lparr>epIP = [10, 0, 0, 5], epPort = 5568, epZone = []\<rparr>),
      Some (1, [1, 0, 0, 0], Some \<lparr>epIP = [10, 0, 0, 6], epPort = 5568, epZone = []\<rparr>)]"
proof -
  have m: "master (tx world2) 1 = Some packet1"
    by (simp add: world2_eq)
  show ?thesis
    using sendOut_writes_in_order
      [OF m, where e = testEnv and f = "\<lambda>n. True" and server = 1]
    by (simp add: m world2_eq IsMulticast_def lookupBool_def generateMulticast_def testEnv_def
        testResolve_def destSlice_def addrsAt_def lookup_def loadAddr_def bytesAt_def
        SequenceIncr_def packet1_def numeral_2_eq_2)
qed

text \<open>C1, as the code has it: every call of \<open>sendOut\<close> for a universe with a master
  packet raises the sequence number of that packet exactly once, by one modulo 256,
  whatever the multicast flag and the unicast list are, and touches no other master
  packet; every write of the call carries the packet with the raised number; and the
  call makes one write for the multicast address if multicast is on and one for each
  unicast destination, which is no write at all when multicast is off and the list is
  empty. A call for a universe without master packet changes nothing.\<close>

theorem sendOut_one_increment_per_call:
  "(let w' = sendOut e w server u in
    case master (tx w) u of
      None \<Rightarrow> w' = w
    | Some p \<Rightarrow>
        master (tx w') = (master (tx w))(u \<mapsto> p\<lparr>pktSequence := pktSequence p + 1\<rparr>) \<and>
        unat (pktSequence p + 1) = (unat (pktSequence p) + 1) mod 256 \<and>
        map attempt (newEvents w w') =
          map (\<lambda>a. Some (server, getBytes e (p\<lparr>pktSequence := pktSequence p + 1\<rparr>), a))
            (targets e w u) \<and>
        length (newEvents w w') =
          (if IsMulticast w u then 1 else 0) + length (destSlice w u))"
proof (cases "master (tx w) u")
  case None
  then show ?thesis by (simp add: sendOut_None)
next
  case (Some p)
  have "unat (pktSequence p + 1) = (unat (pktSequence p) + 1) mod 256"
    by (simp add: unat_word_ariths)
  then show ?thesis
    using Some
    by (simp add: sendOut_Some newEvents_def map_attempt_writeEvents SequenceIncr_def
        targets_def IsMulticast_def)
qed

text \<open>C1 as stated fails: universe 1 is activated, multicast is off and there is no
  unicast destination; \<open>sendOut\<close> raises the sequence number from 0 to 1 and writes
  nothing.\<close>

theorem sendOut_increments_without_write:
  "map_option pktSequence (master (tx world1) 1) = Some 0 \<and>
   \<not> IsMulticast world1 1 \<and> destSlice world1 1 = [] \<and>
   map_option pktSequence (master (tx (sendOut testEnv world1 1 1)) 1) = Some 1 \<and>
   newEvents world1 (sendOut testEnv world1 1 1) = []"
  by (simp add: world1_eq sendOut_def IsMulticast_def lookupBool_def destSlice_def packet1_def
      SequenceIncr_def newEvents_def Let_def)

text \<open>C4: \<open>Activate\<close> for a universe that is already activated returns the error and the
  state it was given, so there is no second channel, master packet, socket or goroutine
  for the universe; the same holds when the binding does not resolve and when the
  socket cannot be opened; and whenever \<open>Activate\<close> returns an error, the whole state
  (both maps of the registry with it) is unchanged.\<close>

theorem Activate_failure_unchanged:
  "(IsActivated w u \<longrightarrow> Activate e w u = (w, Inl (AlreadyActivated u))) \<and>
   (\<forall>err. \<not> IsActivated w u \<longrightarrow> resolveUDPAddr e (bind (tx w)) = Inl err \<longrightarrow>
      Activate e w u = (w, Inl err)) \<and>
   (\<forall>a err. \<not> IsActivated w u \<longrightarrow> resolveUDPAddr e (bind (tx w)) = Inr a \<longrightarrow>
      listenUDP e a (length (socks w)) = Some err \<longrightarrow> Activate e w u = (w, Inl err)) \<and>
   (\<forall>err. snd (Activate e w u) = Inl err \<longrightarrow> fst (Activate e w u) = w)"
  by (auto simp: Activate_def Let_def split: sum.splits option.splits)

theorem Activate_failure_unchanged_witness:
  "IsActivated world1 1 \<and> Activate testEnv world1 1 = (world1, Inl (AlreadyActivated 1)) \<and>
   \<not> IsActivated world0 1 \<and>
   Activate (testEnv\<lparr>resolveUDPAddr := \<lambda>s. Inl (NetError ''no such host'')\<rparr>) world0 1 =
     (world0, Inl (NetError ''no such host'')) \<and>
   Activate (testEnv\<lparr>listenUDP := \<lambda>a n. Some (NetError ''address in use'')\<rparr>) world0 1 =
     (world0, Inl (NetError ''address in use''))"
proof -
  have a: "IsActivated world1 1" and b: "\<not> IsActivated world0 1"
    by (simp_all add: IsActivated_def world1_eq world0_eq)
  let ?e1 = "testEnv\<lparr>resolveUDPAddr := \<lambda>s. Inl (NetError ''no such host'')\<rparr>"
  let ?e2 = "testEnv\<lparr>listenUDP := \<lambda>a n. Some (NetError ''address in use'')\<rparr>"
  have r1: "resolveUDPAddr ?e1 (bind (tx world0)) = Inl (NetError ''no such host'')"
    by simp
  have r2: "resolveUDPAddr ?e2 (bind (tx world0)) = Inr \<lparr>epIP = [], epPort = 0, epZone = []\<rparr>"
    by (simp add: testEnv_def testResolve_def world0_eq)
  have l2: "listenUDP ?e2 \<lparr>epIP = [], epPort = 0, epZone = []\<rparr> (length (socks world0)) =
            Some (NetError ''address in use'')"
    by simp
  show ?thesis
    using Activate_failure_unchanged [of world1 1 testEnv]
      Activate_failure_unchanged [of world0 1 ?e1]
      Activate_failure_unchanged [of world0 1 ?e2]
      a b r1 r2 l2
    by blast
qed

subsection \<open>The loop of \<open>SetDestinations\<close>\<close>

lemma resolvedOf_Nil [simp]: "resolvedOf e [] = []"
  by (simp add: resolvedOf_def)

lemma errorsOf_Nil [simp]: "errorsOf e [] = []"
  by (simp add: errorsOf_def)

lemma resolvedOf_Cons:
  "resolvedOf e (d # ds) =
     (if d = [] then resolvedOf e ds
      else case resolveUDPAddr e (d @ '':5568'') of
             Inl err \<Rightarrow> resolvedOf e ds
           | Inr a \<Rightarrow> a # resolvedOf e ds)"
  by (simp add: resolvedOf_def split: sum.split)

lemma errorsOf_Cons:
  "errorsOf e (d # ds) =
     (if d = [] then errorsOf e ds
      else case resolveUDPAddr e (d @ '':5568'') of
             Inl err \<Rightarrow> err # errorsOf e ds
           | Inr a \<Rightarrow> errorsOf e ds)"
  by (simp add: errorsOf_def split: sum.split)

lemma newAddrs_append:
  "newAddrs n (as @ bs) = newAddrs n as @ newAddrs (n + length as) bs"
  by (induction as arbitrary: n) simp_all

lemma length_newAddrs [simp]: "length (newAddrs n as) = length as"
  by (induction as arbitrary: n) simp_all

lemma setDestLoop_eq:
  "setDestLoop e ds (h, nd, errs) =
     (h @ map (\<lambda>a. ByteArr (epIP a)) (resolvedOf e ds),
      nd @ newAddrs (length h) (resolvedOf e ds),
      errs @ errorsOf e ds)"
proof (induction ds arbitrary: h nd errs)
  case Nil
  show ?case by simp
next
  case (Cons d ds)
  show ?case
  proof (cases "d = []")
    case True
    then show ?thesis by (simp add: Cons.IH resolvedOf_Cons errorsOf_Cons)
  next
    case False
    then show ?thesis
      by (cases "resolveUDPAddr e (d @ '':5568'')")
         (simp_all add: Cons.IH resolvedOf_Cons errorsOf_Cons alloc_def)
  qed
qed

lemma bytesAt_here: "bytesAt (h @ ByteArr bs # k) (length h) = bs"
  by (simp add: bytesAt_def lookup_def)

lemma addrsAt_here: "addrsAt (h @ AddrArr xs # k) (length h) = xs"
  by (simp add: addrsAt_def lookup_def)

lemma loadAddr_here:
  "loadAddr (h @ ByteArr (epIP a) # k) \<lparr>IP = Some (length h), Port = epPort a, Zone = epZone a\<rparr> = a"
  by (simp add: loadAddr_def bytesAt_here)

lemma load_newAddrs:
  "map (loadAddr (h @ map (\<lambda>a. ByteArr (epIP a)) as @ k)) (newAddrs (length h) as) = as"
proof (induction as arbitrary: h)
  case Nil
  show ?case by simp
next
  case (Cons a as)
  have "map (loadAddr ((h @ [ByteArr (epIP a)]) @ map (\<lambda>a. ByteArr (epIP a)) as @ k))
          (newAddrs (length (h @ [ByteArr (epIP a)])) as) = as"
    by (rule Cons.IH)
  then show ?case
    by (simp add: loadAddr_here)
qed

lemma SetDestinations_eq:
  "SetDestinations e w u ds =
     (w\<lparr>tx := (tx w)\<lparr>destinations :=
            (destinations (tx w))(u \<mapsto> length (heap w) + length (resolvedOf e ds))\<rparr>,
        heap := heap w @ map (\<lambda>a. ByteArr (epIP a)) (resolvedOf e ds) @
                  [AddrArr (newAddrs (length (heap w)) (resolvedOf e ds))]\<rparr>,
      errorsOf e ds)"
  by (simp add: SetDestinations_def setDestLoop_eq alloc_def)

lemma destSlice_SetDestinations:
  "destSlice (fst (SetDestinations e w u ds)) u = newAddrs (length (heap w)) (resolvedOf e ds)"
proof -
  have "addrsAt ((heap w @ map (\<lambda>a. ByteArr (epIP a)) (resolvedOf e ds)) @
                   AddrArr (newAddrs (length (heap w)) (resolvedOf e ds)) # [])
          (length (heap w @ map (\<lambda>a. ByteArr (epIP a)) (resolvedOf e ds))) =
        newAddrs (length (heap w)) (resolvedOf e ds)"
    by (rule addrsAt_here)
  then show ?thesis
    by (simp add: SetDestinations_eq destSlice_def)
qed

lemma view_SetDestinations:
  "map (loadAddr (heap (fst (SetDestinations e w u ds))))
     (destSlice (fst (SetDestinations e w u ds)) u) = resolvedOf e ds"
  by (simp add: destSlice_SetDestinations) (simp add: SetDestinations_eq load_newAddrs)

lemma copy_slice_same_length [simp]: "length dst = length src \<Longrightarrow> copy_slice dst src = src"
  by (simp add: copy_slice_def)

lemma Destinations_eq:
  "Destinations w u = (w\<lparr>heap := heap w @ [AddrArr (destSlice w u)]\<rparr>, length (heap w))"
  by (simp add: Destinations_def Let_def alloc_def)

lemma view_Destinations_SetDestinations:
  "viewSlice (fst (Destinations (fst (SetDestinations e w u ds)) u))
     (snd (Destinations (fst (SetDestinations e w u ds)) u)) = resolvedOf e ds"
proof -
  let ?w = "fst (SetDestinations e w u ds)"
  let ?res = "resolvedOf e ds"
  have h: "heap ?w = heap w @ map (\<lambda>a. ByteArr (epIP a)) ?res @
             [AddrArr (newAddrs (length (heap w)) ?res)]"
    by (simp add: SetDestinations_eq)
  have "viewSlice (fst (Destinations ?w u)) (snd (Destinations ?w u)) =
        map (loadAddr (heap ?w @ [AddrArr (destSlice ?w u)])) (destSlice ?w u)"
    using addrsAt_here [of "heap ?w" "destSlice ?w u" "[]"]
    by (simp add: Destinations_eq viewSlice_def)
  also have "\<dots> = map (loadAddr (heap w @ map (\<lambda>a. ByteArr (epIP a)) ?res @
                   [AddrArr (newAddrs (length (heap w)) ?res),
                    AddrArr (newAddrs (length (heap w)) ?res)]))
                 (newAddrs (length (heap w)) ?res)"
    by (simp add: h destSlice_SetDestinations)
  also have "\<dots> = ?res"
    by (rule load_newAddrs)
  finally show ?thesis .
qed

text \<open>C6: \<open>SetDestinations\<close> makes the destination list of the universe, whatever it
  was, the addresses of the strings that are not empty and resolve (each resolved with
  \<open>:5568\<close> behind it), in the order of the input; this is what a transmit reads and what
  \<open>Destinations\<close> hands out. It returns one error for every string that is not empty
  and does not resolve, and none for an empty string; an error does not end the loop.
  In particular, when \<open>10.0.0.5\<close> and \<open>10.0.0.6\<close> resolve and \<open>not-a-host\<close> does not, the
  input \<open>10.0.0.5\<close>, empty, \<open>not-a-host\<close>, \<open>10.0.0.6\<close> gives the two addresses and one
  error.\<close>

theorem SetDestinations_resolved_in_order:
  "SetDestinations e w u dests = (w', errs) \<Longrightarrow>
   map (loadAddr (heap w')) (destSlice w' u) = resolvedOf e dests \<and>
   viewSlice (fst (Destinations w' u)) (snd (Destinations w' u)) = resolvedOf e dests \<and>
   errs = errorsOf e dests \<and>
   length (resolvedOf e dests) + length (errorsOf e dests) = length (filter (\<lambda>d. d \<noteq> []) dests) \<and>
   (dests = [''10.0.0.5'', [], ''not-a-host'', ''10.0.0.6''] \<longrightarrow>
    resolveUDPAddr e ''10.0.0.5:5568'' = Inr a1 \<longrightarrow>
    resolveUDPAddr e ''not-a-host:5568'' = Inl x \<longrightarrow>
    resolveUDPAddr e ''10.0.0.6:5568'' = Inr a2 \<longrightarrow>
    map (loadAddr (heap w')) (destSlice w' u) = [a1, a2] \<and> errs = [x] \<and> length errs = 1)"
proof -
  assume a: "SetDestinations e w u dests = (w', errs)"
  then have w': "w' = fst (SetDestinations e w u dests)"
    and errs: "errs = errorsOf e dests"
    by (simp_all add: SetDestinations_eq)
  have v: "map (loadAddr (heap w')) (destSlice w' u) = resolvedOf e dests"
    unfolding w' by (rule view_SetDestinations)
  have d: "viewSlice (fst (Destinations w' u)) (snd (Destinations w' u)) = resolvedOf e dests"
    unfolding w' by (rule view_Destinations_SetDestinations)
  have n: "length (resolvedOf e ds) + length (errorsOf e ds) = length (filter (\<lambda>d. d \<noteq> []) ds)"
    for ds
    by (induction ds) (simp_all add: resolvedOf_Cons errorsOf_Cons split: sum.split)
  show ?thesis
    using v d errs n [of dests]
    by (auto simp: resolvedOf_Cons errorsOf_Cons)
qed

theorem SetDestinations_resolved_in_order_witness:
  "SetDestinations testEnv world1 1 [''10.0.0.5'', [], ''not-a-host'', ''10.0.0.6''] =
     (fst (SetDestinations testEnv world1 1 [''10.0.0.5'', [], ''not-a-host'', ''10.0.0.6'']),
      [NetError ''not-a-host:5568'']) \<and>
   map (loadAddr (heap (fst (SetDestinations testEnv world1 1
                               [''10.0.0.5'', [], ''not-a-host'', ''10.0.0.6'']))))
     (destSlice (fst (SetDestinations testEnv world1 1
                        [''10.0.0.5'', [], ''not-a-host'', ''10.0.0.6''])) 1) =
     [\<lparr>epIP = [10, 0, 0, 5], epPort = 5568, epZone = []\<rparr>,
      \<lparr>epIP = [10, 0, 0, 6], epPort = 5568, epZone = []\<rparr>]"
proof -
  let ?ds = "[''10.0.0.5'', [], ''not-a-host'', ''10.0.0.6'']"
  let ?w = "fst (SetDestinations testEnv world1 1 ?ds)"
  have r1: "resolveUDPAddr testEnv ''10.0.0.5:5568'' =
              Inr \<lparr>epIP = [10, 0, 0, 5], epPort = 5568, epZone = []\<rparr>"
    and r2: "resolveUDPAddr testEnv ''not-a-host:5568'' = Inl (NetError ''not-a-host:5568'')"
    and r3: "resolveUDPAddr testEnv ''10.0.0.6:5568'' =
              Inr \<lparr>epIP = [10, 0, 0, 6], epPort = 5568, epZone = []\<rparr>"
    by (simp_all add: testEnv_def testResolve_def)
  have e: "SetDestinations testEnv world1 1 ?ds = (?w, [NetError ''not-a-host:5568''])"
    by (simp add: SetDestinations_eq errorsOf_Cons r1 r2 r3)
  have "map (loadAddr (heap ?w)) (destSlice ?w 1) =
          [\<lparr>epIP = [10, 0, 0, 5], epPort = 5568, epZone = []\<rparr>,
           \<lparr>epIP = [10, 0, 0, 6], epPort = 5568, epZone = []\<rparr>]"
    using SetDestinations_resolved_in_order
      [OF e, where ?a1.0 = "\<lparr>epIP = [10, 0, 0, 5], epPort = 5568, epZone = []\<rparr>"
         and x = "NetError ''not-a-host:5568''"
         and ?a2.0 = "\<lparr>epIP = [10, 0, 0, 6], epPort = 5568, epZone = []\<rparr>"]
      r1 r2 r3
    by blast
  with e show ?thesis by blast
qed

subsection \<open>The keep-alive interval\<close>

lemma keepAliveInterval_sendLoopBody:
  "sendLoopBody e w s i = Some w' \<Longrightarrow> keepAliveInterval (tx w') = keepAliveInterval (tx w)"
  by (auto simp: sendLoopBody_def split: option.splits)

lemma keepAliveInterval_sendLoopExit:
  "sendLoopExit e w s = Some w' \<Longrightarrow> keepAliveInterval (tx w') = keepAliveInterval (tx w)"
  by (auto simp: sendLoopExit_def Let_def split: option.splits)

lemma keepAliveInterval_keepAliveLoopBody [simp]:
  "keepAliveInterval (tx (fst (keepAliveLoopBody e w s))) = keepAliveInterval (tx w)"
  by (simp add: keepAliveLoopBody_def Let_def split: option.split)

lemma step_keepAliveInterval:
  "step e w x = Some w' \<Longrightarrow>
   keepAliveInterval (tx w') =
     (case x of OpSetKeepAlive d \<Rightarrow> d | _ \<Rightarrow> keepAliveInterval (tx w))"
  by (cases x)
     (auto simp: SetMulticast_def tx_SetDestinations SetKeepAlive_def SetPriority_def
        keepAliveInterval_sendLoopBody keepAliveInterval_sendLoopExit tx_sliceAssign tx_ipAssign)

lemma run_keepAliveInterval:
  "run e w ops = Some w' \<Longrightarrow>
   keepAliveInterval (tx w') =
     (if keepAliveCalls ops = [] then keepAliveInterval (tx w) else last (keepAliveCalls ops))"
proof (induction ops arbitrary: w)
  case Nil
  then show ?case by simp
next
  case (Cons x xs)
  from Cons.prems obtain w1 where s: "step e w x = Some w1" and r: "run e w1 xs = Some w'"
    by (auto split: option.splits)
  note ih = Cons.IH [OF r]
  note k = step_keepAliveInterval [OF s]
  show ?case
    using ih k by (cases x) simp_all
qed

lemma keepAliveInterval_NewTransmitter:
  "keepAliveInterval (tx (fst (NewTransmitter e b c n))) = second"
  by (simp add: NewTransmitter_def Let_def split: sum.split option.split)

lemma keepAliveLoopBody_Some:
  "master (tx w) (sUniverse s) = Some p \<Longrightarrow>
   keepAliveLoopBody e w s =
     ((sendOut e w (sServ s) (sUniverse s))
        \<lparr>trace := trace (sendOut e w (sServ s) (sUniverse s)) @ [Sleep (keepAliveInterval (tx w))]\<rparr>,
      True)"
  by (simp add: keepAliveLoopBody_def Let_def)

text \<open>C5, as the code has it: the keep-alive loop reads the interval of the transmitter
  at every turn. In any run from a new transmitter, a turn of the keep-alive loop of a
  universe with a master packet sends and then sleeps for the interval of the last
  \<open>SetKeepAlive\<close> of the run so far (one second when there was none), whether that call
  came before the \<open>Activate\<close> of the session or after it.\<close>

theorem keepAlive_sleeps_current_interval:
  "run e (fst (NewTransmitter e binding c name)) ops = Some w \<Longrightarrow>
   master (tx w) (sUniverse s) \<noteq> None \<Longrightarrow>
   snd (keepAliveLoopBody e w s) \<and>
   trace (fst (keepAliveLoopBody e w s)) =
     trace (sendOut e w (sServ s) (sUniverse s)) @
     [Sleep (if keepAliveCalls ops = [] then second else last (keepAliveCalls ops))]"
proof -
  assume r: "run e (fst (NewTransmitter e binding c name)) ops = Some w"
    and m: "master (tx w) (sUniverse s) \<noteq> None"
  from m obtain p where p: "master (tx w) (sUniverse s) = Some p" by blast
  show ?thesis
    by (simp add: keepAliveLoopBody_Some [OF p] run_keepAliveInterval [OF r]
        keepAliveInterval_NewTransmitter)
qed

theorem keepAlive_sleeps_current_interval_witness:
  "\<exists>w. run testEnv (fst (NewTransmitter testEnv [] (replicate 16 7) ''test''))
          [OpSetKeepAlive (2 * second), OpActivate 1, OpSetKeepAlive (5 * second)] = Some w \<and>
        master (tx w) (sUniverse session1) \<noteq> None \<and>
        trace (fst (keepAliveLoopBody testEnv w session1)) =
          trace (sendOut testEnv w (sServ session1) (sUniverse session1)) @
          [Sleep (5 * second)]"
proof -
  let ?ops = "[OpSetKeepAlive (2 * second), OpActivate 1, OpSetKeepAlive (5 * second)]"
  let ?w0 = "fst (NewTransmitter testEnv [] (replicate 16 7) ''test'')"
  obtain w where r: "run testEnv ?w0 ?ops = Some w"
    by simp
  have m: "master (tx w) (sUniverse session1) \<noteq> None"
    using r
    by (auto simp: SetKeepAlive_def NewTransmitter_def Activate_def IsActivated_def
        testEnv_def testResolve_def session1_def Let_def)
  show ?thesis
    using keepAlive_sleeps_current_interval [OF r m] r m
    by auto
qed

text \<open>C5 as stated fails: universe 1 is activated while the interval is one second;
  its keep-alive loop then sleeps one second; after \<open>SetKeepAlive\<close> with five seconds the
  loop of the same session sleeps five seconds.\<close>

theorem keepAlive_interval_not_snapshot:
  "keepAliveInterval (tx world0) = second \<and>
   Activate testEnv world0 1 = (world1, Inr session1) \<and>
   last (trace (fst (keepAliveLoopBody testEnv world1 session1))) = Sleep second \<and>
   last (trace (fst (keepAliveLoopBody testEnv (SetKeepAlive world1 (5 * second)) session1))) =
     Sleep (5 * second)"
proof -
  have "keepAliveInterval (tx world0) = second"
    by (simp add: world0_eq)
  then show ?thesis
    by (simp add: Activate_world0 world1_eq keepAliveLoopBody_def session1_def Let_def
        SetKeepAlive_def)
qed

subsection \<open>The end of the send loop\<close>

lemma sockOpen_closeSock [simp]: "\<not> sockOpen (closeSock w s) s"
  by (simp add: closeSock_def sockOpen_def)

lemma trace_closeSock [simp]: "trace (closeSock w s) = trace w"
  by (simp add: closeSock_def)

lemma socks_length_closeSock [simp]: "length (socks (closeSock w s)) = length (socks w)"
  by (simp add: closeSock_def)

lemma nchan_closeSock [simp]: "nchan (closeSock w s) = nchan w"
  by (simp add: closeSock_def)



lemmas pkt_defs = NewDataPacket_def SetCID_def SetSourceName_def SetUniverse_def SetData_def
  SetPriority_pkt_def SequenceIncr_def SetStreamTerminated_def





subsection \<open>What holds of the copy in every well-formed state\<close>

lemma bytesAt_append: "q < length h \<Longrightarrow> bytesAt (h @ k) q = bytesAt h q"
  by (simp add: bytesAt_def lookup_def nth_append)

lemma addrsAt_append: "r < length h \<Longrightarrow> addrsAt (h @ k) r = addrsAt h r"
  by (simp add: addrsAt_def lookup_def nth_append)

lemma loadAddr_append:
  "(\<And>q. IP a = Some q \<Longrightarrow> q < length h) \<Longrightarrow> loadAddr (h @ k) a = loadAddr h a"
  by (cases "IP a") (simp_all add: loadAddr_def bytesAt_append)

lemma destSlice_refs:
  assumes "wfStore w" "a \<in> set (destSlice w u)" "IP a = Some q"
  shows "q < length (heap w)"
proof (cases "destinations (tx w) u")
  case None
  with assms show ?thesis by (simp add: destSlice_def)
next
  case (Some r)
  with assms(1) have r: "r < length (heap w)" by (simp add: wfStore_def)
  from assms(2) Some have "a \<in> set (addrsAt (heap w) r)"
    by (simp add: destSlice_def)
  with r obtain xs where "heap w ! r = AddrArr xs" "a \<in> set xs"
    by (cases "heap w ! r") (simp_all add: addrsAt_def lookup_def)
  with assms(1) r assms(3) show ?thesis
    unfolding wfStore_def by blast
qed

lemma wfStore_NewTransmitter: "wfStore (fst (NewTransmitter e b c n))"
  by (simp add: wfStore_def NewTransmitter_def Let_def split: sum.split option.split)

lemma newAddrs_refs:
  "a \<in> set (newAddrs n as) \<Longrightarrow> IP a = Some q \<Longrightarrow> n \<le> q \<and> q < n + length as"
  by (induction as arbitrary: n) fastforce+

lemma wfStore_SetDestinations:
  assumes "wfStore w"
  shows "wfStore (fst (SetDestinations e w u ds))"
proof -
  let ?res = "resolvedOf e ds"
  let ?h = "heap w @ map (\<lambda>a. ByteArr (epIP a)) ?res"
  let ?new = "newAddrs (length (heap w)) ?res"
  have h': "heap (fst (SetDestinations e w u ds)) = ?h @ [AddrArr ?new]"
    and d': "destinations (tx (fst (SetDestinations e w u ds))) =
             (destinations (tx w))(u \<mapsto> length ?h)"
    by (simp_all add: SetDestinations_eq)
  have a: "r < length (?h @ [AddrArr ?new])"
    if "((destinations (tx w))(u \<mapsto> length ?h)) v = Some r" for v r
    using that assms by (auto simp: wfStore_def split: if_splits intro: less_SucI trans_less_add1)
  have b: "q < length (?h @ [AddrArr ?new])"
    if r: "r < length (?h @ [AddrArr ?new])" and x: "(?h @ [AddrArr ?new]) ! r = AddrArr xs"
      and m: "a \<in> set xs" and i: "IP a = Some q" for r xs a q
  proof -
    consider "r < length (heap w)" | "length (heap w) \<le> r" "r < length ?h" | "r = length ?h"
      using r by fastforce
    then show ?thesis
    proof cases
      case 1
      with x have "heap w ! r = AddrArr xs" by (simp add: nth_append)
      with assms 1 m i have "q < length (heap w)" unfolding wfStore_def by blast
      then show ?thesis by simp
    next
      case 2
      then have "r - length (heap w) < length ?res" by simp
      with 2 x show ?thesis by (simp add: nth_append)
    next
      case 3
      with x have "xs = ?new" by (simp add: nth_append)
      with m i newAddrs_refs [of a "length (heap w)" ?res q] show ?thesis by simp
    qed
  qed
  show ?thesis
    unfolding wfStore_def h' d' using a b by blast
qed

lemma wfStore_Destinations:
  assumes "wfStore w"
  shows "wfStore (fst (Destinations w u))"
proof -
  have a: "r < length (heap w @ [AddrArr (destSlice w u)])"
    if "destinations (tx w) v = Some r" for v r
    using that assms by (auto simp: wfStore_def intro: less_SucI)
  have b: "q < length (heap w @ [AddrArr (destSlice w u)])"
    if r: "r < length (heap w @ [AddrArr (destSlice w u)])"
      and x: "(heap w @ [AddrArr (destSlice w u)]) ! r = AddrArr xs"
      and m: "a \<in> set xs" and i: "IP a = Some q" for r xs a q
  proof (cases "r < length (heap w)")
    case True
    with x have "heap w ! r = AddrArr xs" by (simp add: nth_append)
    with assms True m i have "q < length (heap w)" unfolding wfStore_def by blast
    then show ?thesis by simp
  next
    case False
    with r x have "xs = destSlice w u" by (simp add: nth_append)
    with m i destSlice_refs [OF assms, of a u q] show ?thesis by simp
  qed
  show ?thesis
    unfolding wfStore_def using a b by (simp add: Destinations_eq)
qed

text \<open>A later \<open>SetDestinations\<close>, for any universe, leaves a slice that \<open>Destinations\<close>
  returned as it was.\<close>

lemma Destinations_then_SetDestinations:
  assumes "wfStore w"
  shows "viewSlice (fst (SetDestinations e (fst (Destinations w u)) v ds))
           (snd (Destinations w u)) =
         viewSlice (fst (Destinations w u)) (snd (Destinations w u))"
proof -
  let ?h2 = "heap w @ [AddrArr (destSlice w u)]"
  let ?k = "map (\<lambda>a. ByteArr (epIP a)) (resolvedOf e ds) @
            [AddrArr (newAddrs (Suc (length (heap w))) (resolvedOf e ds))]"
  have v3: "viewSlice (fst (SetDestinations e (fst (Destinations w u)) v ds))
              (snd (Destinations w u)) =
            map (loadAddr (?h2 @ ?k)) (addrsAt (?h2 @ ?k) (length (heap w)))"
    by (simp add: viewSlice_def SetDestinations_eq Destinations_eq)
  have v2: "viewSlice (fst (Destinations w u)) (snd (Destinations w u)) =
            map (loadAddr ?h2) (addrsAt ?h2 (length (heap w)))"
    by (simp add: viewSlice_def Destinations_eq)
  have d: "addrsAt (?h2 @ ?k) (length (heap w)) = destSlice w u"
    "addrsAt ?h2 (length (heap w)) = destSlice w u"
    using addrsAt_here [of "heap w" "destSlice w u" "?k"]
      addrsAt_here [of "heap w" "destSlice w u" "[]"]
    by simp_all
  have l: "loadAddr (?h2 @ ?k) a = loadAddr ?h2 a" if "a \<in> set (destSlice w u)" for a
  proof (rule loadAddr_append)
    fix q assume "IP a = Some q"
    from destSlice_refs [OF assms that this] show "q < length ?h2" by simp
  qed
  show ?thesis
    unfolding v3 v2 d by (rule map_cong [OF refl]) (rule l)
qed

text \<open>Replacing an element of a slice that \<open>Destinations\<close> returned leaves the
  destinations of every universe, as \<open>sendOut\<close> reads them, as they were.\<close>

lemma sliceAssign_returned_slice:
  assumes "wfStore w" "sliceAssign (fst (Destinations w u)) (snd (Destinations w u)) i x = Some w'"
  shows "map (loadAddr (heap w')) (destSlice w' v) = map (loadAddr (heap w)) (destSlice w v)"
proof -
  let ?h2 = "heap w @ [AddrArr (destSlice w u)]"
  from assms(2) obtain ys where
    w': "w' = (fst (Destinations w u))\<lparr>heap := ?h2[length (heap w) := AddrArr ys]\<rparr>"
    by (auto simp: sliceAssign_def Destinations_eq split: if_splits)
  have h': "heap w' = heap w @ [AddrArr ys]" and t': "tx w' = tx w"
    by (simp_all add: w' Destinations_eq)
  have s: "destSlice w' v = destSlice w v"
  proof (cases "destinations (tx w) v")
    case None
    then show ?thesis by (simp add: destSlice_def t')
  next
    case (Some r)
    with assms(1) have "r < length (heap w)" by (simp add: wfStore_def)
    with Some show ?thesis by (simp add: destSlice_def t' h' addrsAt_append)
  qed
  have l: "loadAddr (heap w @ [AddrArr ys]) a = loadAddr (heap w) a"
    if "a \<in> set (destSlice w v)" for a
  proof (rule loadAddr_append)
    fix q assume "IP a = Some q"
    from destSlice_refs [OF assms(1) that this] show "q < length (heap w)" .
  qed
  show ?thesis
    by (simp add: s h' l)
qed

subsection \<open>The slice \<open>Destinations\<close> returns\<close>

lemma world3_eq:
  "world3 =
     \<lparr>tx = \<lparr>universes = Map.empty, master = Map.empty, destinations = [1 \<mapsto> 1],
            multicast = Map.empty, bind = [], cid = replicate 16 7, sourceName = ''test'',
            keepAliveInterval = second, priority = 0\<rparr>,
      heap = [ByteArr [10, 0, 0, 5], AddrArr [\<lparr>IP = Some 0, Port = 5568, Zone = []\<rparr>]],
      socks = [False], nchan = 0, trace = []\<rparr>"
  by (simp add: world3_def world0_eq SetDestinations_def alloc_def testEnv_def testResolve_def)

lemma Destinations_world3:
  "Destinations world3 1 =
     (\<lparr>tx = \<lparr>universes = Map.empty, master = Map.empty, destinations = [1 \<mapsto> 1],
             multicast = Map.empty, bind = [], cid = replicate 16 7, sourceName = ''test'',
             keepAliveInterval = second, priority = 0\<rparr>,
       heap = [ByteArr [10, 0, 0, 5], AddrArr [\<lparr>IP = Some 0, Port = 5568, Zone = []\<rparr>],
               AddrArr [\<lparr>IP = Some 0, Port = 5568, Zone = []\<rparr>]],
       socks = [False], nchan = 0, trace = []\<rparr>, 2)"
  by (simp add: world3_eq Destinations_eq destSlice_def addrsAt_def lookup_def)

lemma world4_eq:
  "world4 =
     \<lparr>tx = \<lparr>universes = Map.empty, master = Map.empty, destinations = [1 \<mapsto> 1],
            multicast = Map.empty, bind = [], cid = replicate 16 7, sourceName = ''test'',
            keepAliveInterval = second, priority = 0\<rparr>,
      heap = [ByteArr [10, 0, 0, 5], AddrArr [\<lparr>IP = Some 0, Port = 5568, Zone = []\<rparr>],
              AddrArr [\<lparr>IP = Some 0, Port = 5568, Zone = []\<rparr>]],
      socks = [False], nchan = 0, trace = []\<rparr>"
  by (simp add: world4_def Destinations_world3)

text \<open>C8, at a concrete input: after \<open>SetDestinations(1, ["10.0.0.5"])\<close> the caller takes
  \<open>d := Destinations(1)\<close> and reads 10.0.0.5:5568 in it. Replacing the element,
  \<open>d[0] = v\<close>, leaves what the transmitter holds alone, and a later \<open>SetDestinations\<close>
  leaves \<open>d\<close> alone (the two lemmas above say so for every well-formed state). But
  \<open>d[0].IP[0] = 99\<close> writes into the IP array that the copy shares with the
  transmitter's own slice: the next \<open>Destinations(1)\<close> returns 99.0.0.5:5568, and so
  does what \<open>sendOut\<close> reads.\<close>

theorem Destinations_copy_shares_IP_array:
  "snd (Destinations world3 1) = 2 \<and>
   viewSlice world4 2 = [\<lparr>epIP = [10, 0, 0, 5], epPort = 5568, epZone = []\<rparr>] \<and>
   (case sliceAssign world4 2 0 \<lparr>IP = None, Port = 1, Zone = []\<rparr> of
      None \<Rightarrow> False
    | Some w \<Rightarrow>
        viewSlice (fst (Destinations w 1)) (snd (Destinations w 1)) =
          [\<lparr>epIP = [10, 0, 0, 5], epPort = 5568, epZone = []\<rparr>]) \<and>
   viewSlice (fst (SetDestinations testEnv world4 1 [''10.0.0.6''])) 2 =
     [\<lparr>epIP = [10, 0, 0, 5], epPort = 5568, epZone = []\<rparr>] \<and>
   (case ipAssign world4 2 0 0 99 of
      None \<Rightarrow> False
    | Some w \<Rightarrow>
        viewSlice (fst (Destinations w 1)) (snd (Destinations w 1)) =
          [\<lparr>epIP = [99, 0, 0, 5], epPort = 5568, epZone = []\<rparr>] \<and>
        map (loadAddr (heap w)) (destSlice w 1) =
          [\<lparr>epIP = [99, 0, 0, 5], epPort = 5568, epZone = []\<rparr>])"
proof -
  have a: "snd (Destinations world3 1) = 2"
    by (simp add: Destinations_world3)
  have b: "viewSlice world4 2 = [\<lparr>epIP = [10, 0, 0, 5], epPort = 5568, epZone = []\<rparr>]"
    by (simp add: world4_eq viewSlice_def addrsAt_def lookup_def loadAddr_def bytesAt_def)
  have c: "(case sliceAssign world4 2 0 \<lparr>IP = None, Port = 1, Zone = []\<rparr> of
      None \<Rightarrow> False
    | Some w \<Rightarrow>
        viewSlice (fst (Destinations w 1)) (snd (Destinations w 1)) =
          [\<lparr>epIP = [10, 0, 0, 5], epPort = 5568, epZone = []\<rparr>])"
    by (simp add: world4_eq sliceAssign_def Destinations_eq destSlice_def viewSlice_def
        addrsAt_def lookup_def loadAddr_def bytesAt_def)
  have d: "viewSlice (fst (SetDestinations testEnv world4 1 [''10.0.0.6''])) 2 =
     [\<lparr>epIP = [10, 0, 0, 5], epPort = 5568, epZone = []\<rparr>]"
    by (simp add: world4_eq SetDestinations_def alloc_def testEnv_def testResolve_def
        viewSlice_def addrsAt_def lookup_def loadAddr_def bytesAt_def)
  have e: "(case ipAssign world4 2 0 0 99 of
      None \<Rightarrow> False
    | Some w \<Rightarrow>
        viewSlice (fst (Destinations w 1)) (snd (Destinations w 1)) =
          [\<lparr>epIP = [99, 0, 0, 5], epPort = 5568, epZone = []\<rparr>] \<and>
        map (loadAddr (heap w)) (destSlice w 1) =
          [\<lparr>epIP = [99, 0, 0, 5], epPort = 5568, epZone = []\<rparr>])"
    by (simp add: world4_eq ipAssign_def Destinations_eq destSlice_def viewSlice_def
        addrsAt_def lookup_def loadAddr_def bytesAt_def)
  from a b c d e show ?thesis by (intro conjI)
qed

subsection \<open>The two goroutines\<close>

lemma senderPhase_snoc [simp]: "senderPhase (evs @ [ev]) = sstep (senderPhase evs) ev"
  by (simp add: senderPhase_def)

lemma deletePhase_snoc [simp]: "deletePhase (evs @ [ev]) = dstep (deletePhase evs) ev"
  by (simp add: deletePhase_def)









lemma foldl_dstep_DBad [simp]: "foldl dstep DBad evs = DBad"
  by (induction evs) simp_all



subsection \<open>A \<open>sendOut\<close> that runs undisturbed does what the function \<open>sendOut\<close> does\<close>

lemma exec_append: "exec e u st (xs @ ys) = exec e u (exec e u st xs) ys"
  by (simp add: exec_def)

lemma exec_Cons: "exec e u st (a # as) = exec e u (cstep e u st a) as"
  by (simp add: exec_def)

lemma exec_Nil [simp]: "exec e u st [] = st"
  by (simp add: exec_def)

lemma cwritten_append [simp]: "cwritten (xs @ ys) = cwritten xs @ cwritten ys"
  by (induction xs rule: cwritten.induct) simp_all

lemma written_writeEvents [simp]:
  "written (writeEvents e opn s b n as) = map (\<lambda>a. (b, a)) as"
  by (induction as arbitrary: n) simp_all

lemma solo_dests:
  "\<not> cPanic st \<Longrightarrow> cK st = KSend (SoDest ds) \<Longrightarrow>
   (let st' = exec e u st (replicate (length ds) StepK) in
      cK st' = KSend (SoDest []) \<and> \<not> cPanic st' \<and> cPkt st' = cPkt st \<and>
      cwritten (cLog st') = cwritten (cLog st) @ map (\<lambda>d. (getBytes e (cPkt st), Some d)) ds)"
proof (induction ds arbitrary: st)
  case Nil
  then show ?case by simp
next
  case (Cons d ds)
  let ?st1 = "cstep e u st StepK"
  have s1: "\<not> cPanic ?st1" "cK ?st1 = KSend (SoDest ds)" "cPkt ?st1 = cPkt st"
    "cwritten (cLog ?st1) = cwritten (cLog st) @ [(getBytes e (cPkt st), Some d)]"
    using Cons.prems by (simp_all add: cstep_def stepK_def cwrite_def)
  from Cons.IH [OF s1(1) s1(2)] s1(3) s1(4) show ?case
    by (simp add: exec_Cons Let_def)
qed

lemma solo_sendOut:
  assumes "\<not> cPanic st" "cK st = KSend SoGuard" "cInMaster st"
  shows "(let st' = exec e u st (replicate (length (cDests st) + 6) StepK) in
      cK st' = KSleep \<and> \<not> cPanic st' \<and> cPkt st' = SequenceIncr (cPkt st) \<and>
      cwritten (cLog st') = cwritten (cLog st) @
        map (\<lambda>a. (getBytes e (SequenceIncr (cPkt st)), a))
          ((if cMulticast st then [generateMulticast e u] else []) @ map Some (cDests st)))"
proof -
  let ?n = "length (cDests st)"
  let ?st4 = "exec e u st [StepK, StepK, StepK, StepK, StepK]"
  have s4: "\<not> cPanic ?st4" "cK ?st4 = KSend (SoDest (cDests st))"
    "cPkt ?st4 = SequenceIncr (cPkt st)"
    "cwritten (cLog ?st4) = cwritten (cLog st) @
       map (\<lambda>a. (getBytes e (SequenceIncr (cPkt st)), a))
         (if cMulticast st then [generateMulticast e u] else [])"
    using assms by (simp_all add: exec_def cstep_def stepK_def cwrite_def)
  let ?st5 = "exec e u ?st4 (replicate ?n StepK)"
  from solo_dests [OF s4(1) s4(2), of e u] s4(3) s4(4)
  have s5: "cK ?st5 = KSend (SoDest [])" "\<not> cPanic ?st5" "cPkt ?st5 = SequenceIncr (cPkt st)"
    "cwritten (cLog ?st5) = cwritten (cLog st) @
       map (\<lambda>a. (getBytes e (SequenceIncr (cPkt st)), a))
         ((if cMulticast st then [generateMulticast e u] else []) @ map Some (cDests st))"
    by (simp_all add: Let_def comp_def)
  have r: "replicate (?n + 6) StepK =
      [StepK, StepK, StepK, StepK, StepK] @ replicate ?n StepK @ [StepK]"
    by (simp add: numeral_eq_Suc replicate_append_same)
  have "exec e u st (replicate (?n + 6) StepK) = cstep e u ?st5 StepK"
    unfolding r by (simp only: exec_append) (simp add: exec_def)
  with s5 show ?thesis
    by (simp add: Let_def cstep_def stepK_def)
qed

lemma solo_sendOut_agrees:
  assumes "master (tx w) u = Some p"
  shows "(let st' = exec e u ((cstateOf w u p)\<lparr>cK := KSend SoGuard\<rparr>)
                      (replicate (length (destSlice w u) + 6) StepK) in
      master (tx (sendOut e w server u)) u = Some (cPkt st') \<and>
      written (newEvents w (sendOut e w server u)) = cwritten (cLog st'))"
proof -
  let ?st = "(cstateOf w u p)\<lparr>cK := KSend SoGuard\<rparr>"
  have a: "\<not> cPanic ?st" "cK ?st = KSend SoGuard" "cInMaster ?st"
    by (simp_all add: cstateOf_def cinit_def)
  have d: "length (cDests ?st) = length (destSlice w u)" "cPkt ?st = p" "cLog ?st = []"
    "cMulticast ?st = lookupBool (multicast (tx w)) u"
    "cDests ?st = map (loadAddr (heap w)) (destSlice w u)"
    by (simp_all add: cstateOf_def cinit_def)
  from solo_sendOut [OF a, of e u] show ?thesis
    unfolding d
    by (simp add: Let_def sendOut_Some [OF assms] newEvents_def targets_def comp_def)
qed



text \<open>A third schedule: the keep-alive goroutine has passed the guard
  of \<open>sendOut\<close> when the send goroutine, its channel closed, runs to the deletion; the
  keep-alive goroutine then reads nil from the map and its call on it panics.\<close>

lemma keepalive_panics_after_delete:
  "cPanic (exec quietEnv 1 cstate1
            [StepK, StepK, CloseCh, StepS, StepS, StepS, StepS, StepS, StepS, StepS, StepS,
             StepS, StepK, StepK])"
  by (simp add: exec_def cstep_def stepK_def stepS_def cstate1_def cinit_def cwrite_def
      quietEnv_def testEnv_def packet1_def pkt_defs numeral_2_eq_2)

end
